theory Spec2Isabelle
  imports Complex_Main
begin

section \<open>The generalized Monty Hall simulator (src/index.tsx)\<close>

text \<open>
  The program is one React module. Its core is embedded here function by function:
  \<^item> \<open>handleApplyConfig\<close> with its inner \<open>validate\<close> (the configuration validator),
  \<^item> \<open>setupDoors\<close> (board generation of the manual game),
  \<^item> \<open>handleDoorClick\<close>, the host's timeout callback and \<open>resetManualGame\<close>
    (the manual game),
  \<^item> \<open>runSimulation\<close> and \<open>handleStopSimulation\<close> (the batch simulator).

  React state is explicit state passing: every handler takes the component state and
  returns the new one. The numbers read from the configuration form are JavaScript
  numbers with their rounding; the counters of the simulator are \<open>nat\<close> or \<open>int\<close>
  (counting is exact below \<open>2^53\<close>); the progress percentage is the double the program
  computes, as a \<open>real\<close>.
\<close>

subsection \<open>The random source\<close>

text \<open>
  Every random choice of the program has the shape
  \<^verbatim>\<open>Math.floor(Math.random() * n)\<close>, an integer in \<open>[0, n)\<close> for \<open>n > 0\<close> and \<open>0\<close>
  for \<open>n = 0\<close>. The random source is a tape of natural numbers, one entry per call of
  \<^verbatim>\<open>Math.random\<close>; the entry \<open>r\<close> yields the index \<open>r mod n\<close>, so every index the
  program can draw is drawn by some tape and conversely.
\<close>

definition randomIndex :: "nat \<Rightarrow> nat \<Rightarrow> nat" where
  "randomIndex r n = (if n = 0 then 0 else r mod n)"

text \<open>
  \<^verbatim>\<open>arr[Math.floor(Math.random() * arr.length)]\<close>: reading past the end of a
  JavaScript array gives \<^verbatim>\<open>undefined\<close>, here \<open>None\<close>.
\<close>

definition pickRandom :: "'a list \<Rightarrow> nat \<Rightarrow> 'a option" where
  "pickRandom arr r =
     (let j = randomIndex r (length arr) in if j < length arr then Some (arr ! j) else None)"

subsection \<open>JavaScript numbers\<close>

text \<open>
  The numbers \<^verbatim>\<open>parseInt\<close> can return: \<^verbatim>\<open>NaN\<close>, the two infinities, and the doubles
  with an integer value (\<open>Finite v\<close>, where \<open>v\<close> is that value; \<open>-0\<close> is \<open>Finite 0\<close>, from
  which no comparison and no subtraction tells it apart).
\<close>

datatype JsNumber = NaN | NegInfinity | Finite int | Infinity

text \<open>The number of binary digits of a positive integer.\<close>

function bitLength :: "int \<Rightarrow> nat" where
  "bitLength v = (if v \<le> 0 then 0 else Suc (bitLength (v div 2)))"
  by pat_completeness auto
termination
  by (relation "measure nat") auto

text \<open>
  The double nearest to a non-negative integer, ties to the even mantissa: below \<open>2^53\<close>
  every integer is a double; from there on a double has 53 significant bits.
\<close>

definition roundToDouble :: "int \<Rightarrow> int" where
  "roundToDouble v =
     (if v < 2 ^ 53 then v
      else
        (let e = bitLength v - 53;
             q = v div 2 ^ e;
             r = v mod 2 ^ e;
             half = 2 ^ (e - 1)
         in (if r < half then q else if half < r then q + 1
             else if even q then q else q + 1) * 2 ^ e))"

text \<open>The Number value of a mathematical integer; beyond the largest double it is infinite.\<close>

definition toNumber :: "int \<Rightarrow> JsNumber" where
  "toNumber v =
     (let m = roundToDouble \<bar>v\<bar>
      in if 2 ^ 1024 \<le> m then (if v < 0 then NegInfinity else Infinity)
         else Finite (if v < 0 then - m else m))"

definition isNaN :: "JsNumber \<Rightarrow> bool" where
  "isNaN x = (x = NaN)"

text \<open>\<^verbatim>\<open>a < b\<close> and \<^verbatim>\<open>a >= b\<close>: every comparison with \<^verbatim>\<open>NaN\<close> is false.\<close>

fun jsLess :: "JsNumber \<Rightarrow> JsNumber \<Rightarrow> bool" where
  "jsLess NaN b = False"
| "jsLess a NaN = False"
| "jsLess Infinity b = False"
| "jsLess a NegInfinity = False"
| "jsLess NegInfinity b = True"
| "jsLess a Infinity = True"
| "jsLess (Finite a) (Finite b) = (a < b)"

definition jsGreaterEq :: "JsNumber \<Rightarrow> JsNumber \<Rightarrow> bool" where
  "jsGreaterEq a b = (a \<noteq> NaN \<and> b \<noteq> NaN \<and> \<not> jsLess a b)"

text \<open>\<^verbatim>\<open>a - b\<close>: the exact difference, rounded to a double.\<close>

fun jsMinus :: "JsNumber \<Rightarrow> JsNumber \<Rightarrow> JsNumber" where
  "jsMinus NaN b = NaN"
| "jsMinus a NaN = NaN"
| "jsMinus Infinity Infinity = NaN"
| "jsMinus NegInfinity NegInfinity = NaN"
| "jsMinus Infinity b = Infinity"
| "jsMinus NegInfinity b = NegInfinity"
| "jsMinus a Infinity = NegInfinity"
| "jsMinus a NegInfinity = Infinity"
| "jsMinus (Finite a) (Finite b) = toNumber (a - b)"

subsection \<open>Configuration: \<open>handleApplyConfig\<close>\<close>

text \<open>
  A JavaScript string is a sequence of UTF-16 code units, here integers; \<open>ascii\<close> gives
  the code units of a text of ASCII characters.
\<close>

definition ascii :: "string \<Rightarrow> int list" where
  "ascii s = map of_char s"

text \<open>
  \<^verbatim>\<open>parseInt(text, 10)\<close>: leading white space and line terminators are skipped (tab,
  line feed, vertical tab, form feed, carriage return, space, no-break space, the
  Unicode space separators, line and paragraph separator, and the byte order mark), one
  sign is read, then the longest run of decimal digits; what follows the digits is
  ignored. With no digit the result is \<^verbatim>\<open>NaN\<close>, otherwise the Number value of the
  integer the digits denote: the nearest double, ties to the even mantissa. (Past 20
  significant digits the standard lets an implementation read the later digits as
  zeros; here the exact integer is rounded.)
\<close>

definition isWhiteSpace :: "int \<Rightarrow> bool" where
  "isWhiteSpace c =
     (c \<in> {9, 10, 11, 12, 13, 32, 160, 5760, 8232, 8233, 8239, 8287, 12288, 65279}
      \<or> (8192 \<le> c \<and> c \<le> 8202))"

definition isDigit :: "int \<Rightarrow> bool" where
  "isDigit c = (48 \<le> c \<and> c \<le> 57)"

definition digitsValue :: "int list \<Rightarrow> int" where
  "digitsValue ds = foldl (\<lambda>acc c. 10 * acc + (c - 48)) 0 ds"

definition parseInt :: "int list \<Rightarrow> JsNumber" where
  "parseInt inputString =
     (let S = dropWhile isWhiteSpace inputString;
          negative = (S \<noteq> [] \<and> hd S = 45);
          S' = (if S \<noteq> [] \<and> (hd S = 43 \<or> hd S = 45) then tl S else S);
          Z = takeWhile isDigit S'
      in if Z = [] then NaN
         else toNumber (if negative then - digitsValue Z else digitsValue Z))"

text \<open>
  The five messages of \<open>validate\<close>, in the order of the source; the empty string, which
  means that the configuration is accepted, is \<open>None\<close>.
\<close>

datatype ValidationError =
    NotANumber
  | TooFewDoors
  | TooFewPrizes
  | TooManyPrizes
  | InsufficientSwitchChoice

definition validate :: "JsNumber \<Rightarrow> JsNumber \<Rightarrow> ValidationError option" where
  "validate doorCount prizeCount =
     (if isNaN doorCount \<or> isNaN prizeCount then Some NotANumber
      else if jsLess doorCount (Finite 3) then Some TooFewDoors
      else if jsLess prizeCount (Finite 1) then Some TooFewPrizes
      else if jsGreaterEq prizeCount doorCount then Some TooManyPrizes
      else if jsLess (jsMinus doorCount prizeCount) (Finite 2)
        then Some InsufficientSwitchChoice
      else None)"

record SimulatorConfig =
  numberOfDoors :: JsNumber
  numberOfPrizes :: JsNumber

record AppState =
  config :: SimulatorConfig
  tempDoors :: "int list"
  tempPrizes :: "int list"
  error :: "ValidationError option"

definition handleApplyConfig :: "AppState \<Rightarrow> AppState" where
  "handleApplyConfig app =
     (let doorCount = parseInt (tempDoors app);
          prizeCount = parseInt (tempPrizes app);
          errorMessage = validate doorCount prizeCount
      in case errorMessage of
           Some e \<Rightarrow> app\<lparr>error := Some e\<rparr>
         | None \<Rightarrow>
             app\<lparr>error := None,
                 config := \<lparr>numberOfDoors = doorCount, numberOfPrizes = prizeCount\<rparr>\<rparr>)"

text \<open>The state \<open>App\<close> starts in: three doors, one prize, no error.\<close>

definition initialApp :: AppState where
  "initialApp =
     \<lparr>config = \<lparr>numberOfDoors = Finite 3, numberOfPrizes = Finite 1\<rparr>,
      tempDoors = ascii ''3'', tempPrizes = ascii ''1'', error = None\<rparr>"

text \<open>
  The component \<open>Simulator\<close> is given door and prize counts that passed \<open>validate\<close> (or
  the initial 3 and 1); below they are natural numbers, and \<open>validConfig\<close> says that
  \<open>validate\<close> accepts them. An infinite door count, which \<open>validate\<close> also accepts, makes
  \<^verbatim>\<open>Array(numberOfDoors)\<close> throw as every count from \<open>2^32\<close> on does.
\<close>

definition validConfig :: "nat \<Rightarrow> nat \<Rightarrow> bool" where
  "validConfig n P = (validate (Finite (int n)) (Finite (int P)) = None)"


subsection \<open>Doors and board generation: \<open>setupDoors\<close>\<close>

record DoorState =
  hasPrize :: bool
  isOpen :: bool
  isSelected :: bool

text \<open>
  In the component \<open>Simulator\<close> the configured \<open>numberOfDoors\<close> and \<open>numberOfPrizes\<close>
  are the parameters \<open>n\<close> and \<open>P\<close> of every function below.
\<close>

text \<open>
  Reading a field of an array element that does not exist
  (\<^verbatim>\<open>doors[position].hasPrize\<close> with \<open>position\<close> out of range) throws a
  \<^verbatim>\<open>TypeError\<close>; \<^verbatim>\<open>Array(n)\<close> throws a \<^verbatim>\<open>RangeError\<close> when \<open>n\<close> is not below
  \<open>2^32\<close>, the bound on the length of an array. The memory that an array of a
  given length takes is not modelled.
\<close>

datatype JsError = TypeError | RangeError

definition maxArrayLength :: int where
  "maxArrayLength = 4294967296"

definition closedDoor :: DoorState where
  "closedDoor = \<lparr>hasPrize = False, isOpen = False, isSelected = False\<rparr>"

text \<open>
  The \<^verbatim>\<open>while (prizesPlaced < numberOfPrizes)\<close> loop of \<open>setupDoors\<close>. It draws until
  enough prizes are placed, so on an unlucky random source it never ends: the result is
  \<open>None\<close> when the tape is used up while the loop is still running,
  \<open>Some (Inl TypeError)\<close> when the loop throws, and \<open>Some (Inr (doors, rest))\<close> when it
  returns \<open>doors\<close> and leaves \<open>rest\<close> of the tape. The array of closed doors is built
  before the loop, in \<open>setupDoors\<close>.
\<close>

fun setupDoorsLoop ::
  "nat \<Rightarrow> nat \<Rightarrow> DoorState list \<Rightarrow> nat \<Rightarrow> nat list \<Rightarrow> (JsError + DoorState list \<times> nat list) option"
where
  "setupDoorsLoop n P doors prizesPlaced [] =
     (if prizesPlaced < P then None else Some (Inr (doors, [])))"
| "setupDoorsLoop n P doors prizesPlaced (r # rs) =
     (if prizesPlaced < P then
        (let position = randomIndex r n in
         if position < length doors then
           (if \<not> hasPrize (doors ! position)
            then setupDoorsLoop n P (doors[position := (doors ! position)\<lparr>hasPrize := True\<rparr>])
                   (prizesPlaced + 1) rs
            else setupDoorsLoop n P doors prizesPlaced rs)
         else Some (Inl TypeError))
      else Some (Inr (doors, r # rs)))"

definition setupDoors ::
  "nat \<Rightarrow> nat \<Rightarrow> nat list \<Rightarrow> (JsError + DoorState list \<times> nat list) option"
where
  "setupDoors n P tape =
     (if maxArrayLength \<le> int n then Some (Inl RangeError)
      else setupDoorsLoop n P (replicate n closedDoor) 0 tape)"

subsection \<open>The manual game\<close>

datatype GameState = Initial | Picked | Revealed | Finished

text \<open>
  The messages shown to the player, by what they say: choose one of \<open>n\<close> doors; keep the
  door or click another closed one; and the four results.
\<close>

datatype Message =
    ChooseOneOf nat
  | KeepOrSwitch
  | SwitchedAndWon
  | StayedAndWon
  | SwitchedAndLost
  | StayedAndLost

record ManualStats =
  stayWins :: nat
  switchWins :: nat
  total :: nat

record ManualGame =
  doors :: "DoorState list"
  gameState :: GameState
  message :: Message
  manualStats :: ManualStats

text \<open>\<^verbatim>\<open>doors.findIndex(d => d.isSelected)\<close>: the first index, or \<open>-1\<close>.\<close>

fun findIndexFrom :: "('a \<Rightarrow> bool) \<Rightarrow> 'a list \<Rightarrow> int \<Rightarrow> int" where
  "findIndexFrom p [] k = -1"
| "findIndexFrom p (x # xs) k = (if p x then k else findIndexFrom p xs (k + 1))"

definition findIndex :: "('a \<Rightarrow> bool) \<Rightarrow> 'a list \<Rightarrow> int" where
  "findIndex p xs = findIndexFrom p xs 0"

text \<open>\<^verbatim>\<open>arr.map((door, index) => f door index)\<close>.\<close>

definition mapIndexed :: "('a \<Rightarrow> nat \<Rightarrow> 'b) \<Rightarrow> 'a list \<Rightarrow> 'b list" where
  "mapIndexed f xs = map (\<lambda>index. f (xs ! index) index) [0..<length xs]"

text \<open>
  \<open>handleDoorClick\<close>. The first click (state \<open>Initial\<close>) marks the door and starts the
  host's timer; the click in state \<open>Revealed\<close> is the final choice.
\<close>

definition handleDoorClick :: "ManualGame \<Rightarrow> nat \<Rightarrow> JsError + ManualGame" where
  "handleDoorClick g clickedIndex =
     (if gameState g = Finished \<or> gameState g = Picked then Inr g
      else if gameState g = Initial then
        (if clickedIndex < length (doors g) then
           Inr (g\<lparr>doors := (doors g)[clickedIndex := (doors g ! clickedIndex)\<lparr>isSelected := True\<rparr>],
                  gameState := Picked\<rparr>)
         else Inl TypeError)
      else
        (if clickedIndex < length (doors g) then
           (if isOpen (doors g ! clickedIndex) then Inr g
            else
              (let initialChoiceIndex = findIndex isSelected (doors g);
                   switched = (int clickedIndex \<noteq> initialChoiceIndex);
                   hasWon = hasPrize (doors g ! clickedIndex);
                   prev = manualStats g
               in Inr (g\<lparr>manualStats :=
                           prev\<lparr>total := total prev + 1,
                                stayWins := (if \<not> switched \<and> hasWon then stayWins prev + 1
                                             else stayWins prev),
                                switchWins := (if switched \<and> hasWon then switchWins prev + 1
                                               else switchWins prev)\<rparr>,
                         message :=
                           (if hasWon then (if switched then SwitchedAndWon else StayedAndWon)
                            else (if switched then SwitchedAndLost else StayedAndLost)),
                         doors := mapIndexed (\<lambda>door index.
                                    door\<lparr>isOpen := True, isSelected := (index = clickedIndex)\<rparr>)
                                    (doors g),
                         gameState := Finished\<rparr>)))
         else Inl TypeError))"

text \<open>
  The callback of \<^verbatim>\<open>setTimeout\<close>, run one second after the first click: the host
  opens a door that was not picked and has no prize. \<open>r\<close> is the host's random draw.
\<close>

definition hostOpenableDoors :: "DoorState list \<Rightarrow> nat list" where
  "hostOpenableDoors currentDoors =
     filter (\<lambda>index. \<not> isSelected (currentDoors ! index) \<and> \<not> hasPrize (currentDoors ! index))
       [0..<length currentDoors]"

definition hostOpenIndex :: "DoorState list \<Rightarrow> nat \<Rightarrow> nat option" where
  "hostOpenIndex currentDoors r = pickRandom (hostOpenableDoors currentDoors) r"

definition hostTimeout :: "ManualGame \<Rightarrow> nat \<Rightarrow> ManualGame" where
  "hostTimeout g r =
     g\<lparr>doors := mapIndexed (\<lambda>door index. door\<lparr>isOpen := (Some index = hostOpenIndex (doors g) r)\<rparr>)
                  (doors g),
       gameState := Revealed,
       message := KeepOrSwitch\<rparr>"

text \<open>\<open>resetManualGame\<close>: a new board, state \<open>Initial\<close>; the statistics stay.\<close>

definition resetManualGame ::
  "nat \<Rightarrow> nat \<Rightarrow> ManualGame \<Rightarrow> nat list \<Rightarrow> (JsError + ManualGame \<times> nat list) option"
where
  "resetManualGame n P g tape =
     (case setupDoors n P tape of
        None \<Rightarrow> None
      | Some (Inl e) \<Rightarrow> Some (Inl e)
      | Some (Inr (newDoors, rest)) \<Rightarrow>
          Some (Inr (g\<lparr>doors := newDoors, gameState := Initial,
                       message := ChooseOneOf n\<rparr>, rest)))"

text \<open>
  What can happen to a mounted manual game: a click on a door; the host's timer, which
  is pending exactly in state \<open>Picked\<close>; the new-game button, which is shown exactly in
  state \<open>Finished\<close>. \<open>None\<close> means that the event cannot happen in this state or that
  the board loop of the reset did not end on the given tape.
\<close>

datatype Event = Click nat | HostTimer nat | NewGame "nat list"

fun manualStep :: "nat \<Rightarrow> nat \<Rightarrow> ManualGame \<Rightarrow> Event \<Rightarrow> (JsError + ManualGame) option" where
  "manualStep n P g (Click clickedIndex) = Some (handleDoorClick g clickedIndex)"
| "manualStep n P g (HostTimer r) =
     (if gameState g = Picked then Some (Inr (hostTimeout g r)) else None)"
| "manualStep n P g (NewGame tape) =
     (if gameState g = Finished then
        (case resetManualGame n P g tape of
           None \<Rightarrow> None
         | Some (Inl e) \<Rightarrow> Some (Inl e)
         | Some (Inr (g', rest)) \<Rightarrow> Some (Inr g'))
      else None)"

fun manualRun :: "nat \<Rightarrow> nat \<Rightarrow> ManualGame \<Rightarrow> Event list \<Rightarrow> (JsError + ManualGame) option" where
  "manualRun n P g [] = Some (Inr g)"
| "manualRun n P g (e # es) =
     (case manualStep n P g e of
        None \<Rightarrow> None
      | Some (Inl err) \<Rightarrow> Some (Inl err)
      | Some (Inr g') \<Rightarrow> manualRun n P g' es)"

text \<open>
  Mounting the component: the state initialisers run (\<open>setupDoors\<close>, state \<open>Initial\<close>,
  statistics zero), then the effect calls \<open>resetManualGame\<close> once.
\<close>

definition mountManual :: "nat \<Rightarrow> nat \<Rightarrow> nat list \<Rightarrow> (JsError + ManualGame \<times> nat list) option" where
  "mountManual n P tape =
     (case setupDoors n P tape of
        None \<Rightarrow> None
      | Some (Inl e) \<Rightarrow> Some (Inl e)
      | Some (Inr (firstDoors, rest)) \<Rightarrow>
          resetManualGame n P
            \<lparr>doors = firstDoors, gameState = Initial,
             message = ChooseOneOf n,
             manualStats = \<lparr>stayWins = 0, switchWins = 0, total = 0\<rparr>\<rparr> rest)"


subsection \<open>The batch simulator: \<open>runSimulation\<close>\<close>

record Stats =
  wins :: int
  losses :: int

datatype Marker = Win | Loss

record AutoState =
  isSimulating :: bool
  progress :: real
  stayStats :: Stats
  switchStats :: Stats
  animationData :: "Marker list"
  simulationStopped :: bool

text \<open>
  \<open>simulationStopped\<close> is not React state but a reference (\<^verbatim>\<open>useRef\<close>): one cell
  that every handler and every run of \<open>runSimulation\<close> of the component reads and
  writes. \<open>runSimulation\<close> is a callback of a mounted \<open>Simulator\<close>, and mounting has run
  \<open>setupDoors\<close>; so the door count is below \<open>2^32\<close> when a trial builds its board.
\<close>

text \<open>
  The board of a trial is an array of booleans. \<^verbatim>\<open>currentDoors[k]\<close> in a condition is
  false for an index past the end (or for \<^verbatim>\<open>undefined\<close> as index), and the
  assignment \<^verbatim>\<open>currentDoors[pos] = true\<close> past the end extends the array; the holes it
  leaves are read as false.
\<close>

definition truthyAt :: "bool list \<Rightarrow> nat \<Rightarrow> bool" where
  "truthyAt arr k = (k < length arr \<and> arr ! k)"

definition truthyAtOpt :: "bool list \<Rightarrow> nat option \<Rightarrow> bool" where
  "truthyAtOpt arr k = (case k of None \<Rightarrow> False | Some j \<Rightarrow> truthyAt arr j)"

definition assignTrue :: "bool list \<Rightarrow> nat \<Rightarrow> bool list" where
  "assignTrue arr pos =
     (if pos < length arr then arr[pos := True]
      else arr @ replicate (pos - length arr) False @ [True])"

text \<open>The inner \<^verbatim>\<open>while (prizesPlaced < numberOfPrizes)\<close> loop of a trial.\<close>

fun trialBoardLoop ::
  "nat \<Rightarrow> nat \<Rightarrow> bool list \<Rightarrow> nat \<Rightarrow> nat list \<Rightarrow> (bool list \<times> nat list) option"
where
  "trialBoardLoop n P currentDoors prizesPlaced [] =
     (if prizesPlaced < P then None else Some (currentDoors, []))"
| "trialBoardLoop n P currentDoors prizesPlaced (r # rs) =
     (if prizesPlaced < P then
        (let pos = randomIndex r n in
         if \<not> truthyAt currentDoors pos
         then trialBoardLoop n P (assignTrue currentDoors pos) (prizesPlaced + 1) rs
         else trialBoardLoop n P currentDoors prizesPlaced rs)
      else Some (currentDoors, r # rs))"

definition trialBoard :: "nat \<Rightarrow> nat \<Rightarrow> nat list \<Rightarrow> (bool list \<times> nat list) option" where
  "trialBoard n P tape = trialBoardLoop n P (replicate n False) 0 tape"

text \<open>The host's and the player's second move inside a trial.\<close>

definition otherDoors :: "nat \<Rightarrow> nat \<Rightarrow> nat list" where
  "otherDoors n playerChoice = filter (\<lambda>k. k \<noteq> playerChoice) [0..<n]"

definition hostOpenable :: "nat \<Rightarrow> bool list \<Rightarrow> nat \<Rightarrow> nat list" where
  "hostOpenable n currentDoors playerChoice =
     filter (\<lambda>k. \<not> truthyAt currentDoors k) (otherDoors n playerChoice)"

definition hostOpened :: "nat \<Rightarrow> bool list \<Rightarrow> nat \<Rightarrow> nat \<Rightarrow> nat option" where
  "hostOpened n currentDoors playerChoice r =
     pickRandom (hostOpenable n currentDoors playerChoice) r"

definition switchable :: "nat \<Rightarrow> nat \<Rightarrow> nat option \<Rightarrow> nat list" where
  "switchable n playerChoice opened =
     filter (\<lambda>k. Some k \<noteq> opened) (otherDoors n playerChoice)"

definition switchChoice :: "nat \<Rightarrow> nat \<Rightarrow> nat option \<Rightarrow> nat \<Rightarrow> nat option" where
  "switchChoice n playerChoice opened r = pickRandom (switchable n playerChoice opened) r"

text \<open>
  One trial: the body of the \<^verbatim>\<open>for\<close> loop up to the update of the two local win
  counters. It returns the board, the player's choice, the two counters and the rest of
  the tape, or \<open>None\<close> when the tape ends first.
\<close>

definition runTrial ::
  "nat \<Rightarrow> nat \<Rightarrow> int \<Rightarrow> int \<Rightarrow> nat list \<Rightarrow> (bool list \<times> nat \<times> int \<times> int \<times> nat list) option"
where
  "runTrial n P localStayWins localSwitchWins tape =
     (case trialBoard n P tape of
        None \<Rightarrow> None
      | Some (currentDoors, tape1) \<Rightarrow>
          (case tape1 of
             [] \<Rightarrow> None
           | r # tape2 \<Rightarrow>
               (let playerChoice = randomIndex r n;
                    stayWins' = (if truthyAt currentDoors playerChoice
                                 then localStayWins + 1 else localStayWins);
                    initialPickHasPrize = truthyAt currentDoors playerChoice
                in if \<not> initialPickHasPrize then
                     (case tape2 of
                        r1 # r2 # tape3 \<Rightarrow>
                          (let opened = hostOpened n currentDoors playerChoice r1;
                               choice = switchChoice n playerChoice opened r2
                           in Some (currentDoors, playerChoice, stayWins',
                                    (if truthyAtOpt currentDoors choice
                                     then localSwitchWins + 1 else localSwitchWins),
                                    tape3))
                      | _ \<Rightarrow> None)
                   else Some (currentDoors, playerChoice, stayWins', localSwitchWins, tape2))))"

text \<open>\<open>handleStopSimulation\<close>: the stop button.\<close>

definition handleStopSimulation :: "AutoState \<Rightarrow> AutoState" where
  "handleStopSimulation st = st\<lparr>simulationStopped := True, isSimulating := False\<rparr>"

text \<open>
  \<^verbatim>\<open>i % Math.ceil(simulations / k) === 0\<close>; a remainder by zero is \<^verbatim>\<open>NaN\<close>, which
  is not \<open>0\<close>.
\<close>

definition atInterval :: "nat \<Rightarrow> nat \<Rightarrow> nat \<Rightarrow> bool" where
  "atInterval i simulations k =
     (let step = (simulations + k - 1) div k in step \<noteq> 0 \<and> i mod step = 0)"

text \<open>
  \<^verbatim>\<open>(i / simulations) * 100\<close> in double arithmetic. \<open>nearestDouble a b\<close> is the double
  nearest to the fraction \<open>a / b\<close>, ties to the even mantissa, as a mantissa \<open>m\<close> and an
  exponent \<open>e\<close> with value \<open>m * 2^e\<close>: 53 significant bits, and no exponent below
  \<open>-1074\<close>. The loop computes it for \<open>1 \<le> i \<le> simulations\<close> only, so nothing here
  divides by zero or exceeds 100; without a positive numerator and denominator the
  definition gives zero.
\<close>

definition nearestDouble :: "int \<Rightarrow> int \<Rightarrow> int \<times> int" where
  "nearestDouble a b =
     (if a \<le> 0 \<or> b \<le> 0 then (0, 0)
      else
        (let t = int (bitLength a) - int (bitLength b);
             atLeast = (if t < 0 then b \<le> a * 2 ^ nat (- t) else b * 2 ^ nat t \<le> a);
             lg = (if atLeast then t else t - 1);
             e = max (lg - 52) (- 1074);
             num = (if e < 0 then a * 2 ^ nat (- e) else a);
             den = (if e < 0 then b else b * 2 ^ nat e);
             q = num div den;
             r = num mod den;
             m = (if 2 * r < den then q else if den < 2 * r then q + 1
                  else if even q then q else q + 1)
         in (m, e)))"

definition doubleValue :: "int \<times> int \<Rightarrow> real" where
  "doubleValue d =
     (case d of (m, e) \<Rightarrow>
        if e < 0 then real_of_int m / 2 ^ nat (- e) else real_of_int m * 2 ^ nat e)"

definition doublePercent :: "nat \<Rightarrow> nat \<Rightarrow> real" where
  "doublePercent i simulations =
     (case nearestDouble (int i) (int simulations) of
        (m, e) \<Rightarrow>
          doubleValue (if e < 0 then nearestDouble (m * 100) (2 ^ nat (- e))
                       else nearestDouble (m * 100 * 2 ^ nat e) 1))"

text \<open>
  The rest of the loop body: the statistics of trial \<open>i\<close> are published, the trace and
  the progress are updated at their intervals. The only point where anything else can
  run is the \<^verbatim>\<open>await sleep(delay)\<close> after a progress report. \<open>duringSleep i\<close> says
  what happens during the sleep that follows trial \<open>i\<close>:
  \<^item> \<open>NoClick\<close>: nothing that bears on this run (the manual game writes no state of
    the batch simulator, and the loop reads \<open>simulations\<close> and \<open>speed\<close> as they were
    when the run was started);
  \<^item> \<open>StopClick\<close>: the stop button is clicked, and beyond that nothing that bears on
    this run;
  \<^item> \<open>Interference\<close>: another loop of \<open>runSimulation\<close> runs, or the component is
    replaced. After a stop click the start button is shown at once, and a click on it
    starts a new run, which clears the shared stop flag; the sleeping loop then reads
    \<open>false\<close> when it wakes and goes on, and both runs write the same state in
    turn. In the same way a cancelled loop that was still asleep when this run was
    started wakes up during a sleep of this run. And a new configuration that is
    applied replaces the component, whose key is the configuration: the loop goes on,
    but what it writes is no longer shown.
  This development follows one loop on a component that stays. A run with an
  interference has no result here: the loop function gives \<open>None\<close> at that sleep, as
  it does when the tape ends.
\<close>

datatype SleepEvent = NoClick | StopClick | Interference

definition publishTrial ::
  "nat \<Rightarrow> int \<Rightarrow> (nat \<Rightarrow> SleepEvent) \<Rightarrow> nat \<Rightarrow> bool list \<Rightarrow> nat \<Rightarrow> int \<Rightarrow> int \<Rightarrow> AutoState
     \<Rightarrow> AutoState"
where
  "publishTrial simulations delay duringSleep i currentDoors playerChoice
       localStayWins localSwitchWins st =
     (let st1 = st\<lparr>stayStats := \<lparr>wins = localStayWins, losses = int i - localStayWins\<rparr>,
                   switchStats := \<lparr>wins = localSwitchWins, losses = int i - localSwitchWins\<rparr>\<rparr>;
          st2 = (if atInterval i simulations 300 then
                   st1\<lparr>animationData :=
                         drop (length (animationData st1) - 299) (animationData st1)
                           @ [if truthyAt currentDoors playerChoice then Win else Loss]\<rparr>
                 else st1)
      in if atInterval i simulations 100 then
           (let st3 = st2\<lparr>progress := doublePercent i simulations\<rparr>
            in if delay > 0 \<and> duringSleep i = StopClick then handleStopSimulation st3 else st3)
         else st2)"

text \<open>
  The \<^verbatim>\<open>for (let i = 1; i <= simulations; i++)\<close> loop, as a recursion over the values
  of \<open>i\<close> still to come. Besides the state it returns the list of the states an observer
  saw, one after each completed trial.
\<close>

fun simulationLoop ::
  "nat \<Rightarrow> nat \<Rightarrow> nat \<Rightarrow> int \<Rightarrow> (nat \<Rightarrow> SleepEvent) \<Rightarrow> nat list \<Rightarrow> int \<Rightarrow> int \<Rightarrow> AutoState
     \<Rightarrow> nat list \<Rightarrow> AutoState list \<Rightarrow> (AutoState \<times> AutoState list \<times> nat list) option"
where
  "simulationLoop n P simulations delay duringSleep [] localStayWins localSwitchWins st tape seen =
     Some (st, seen, tape)"
| "simulationLoop n P simulations delay duringSleep (i # todo) localStayWins localSwitchWins st
       tape seen =
     (if simulationStopped st then Some (st, seen, tape)
      else
        (case runTrial n P localStayWins localSwitchWins tape of
           None \<Rightarrow> None
         | Some (currentDoors, playerChoice, stayWins', switchWins', rest) \<Rightarrow>
             (let st' = publishTrial simulations delay duringSleep i currentDoors playerChoice
                          stayWins' switchWins' st
              in if atInterval i simulations 100 \<and> delay > 0 \<and> duringSleep i = Interference
                 then None
                 else simulationLoop n P simulations delay duringSleep todo stayWins'
                        switchWins' st' rest (seen @ [st']))))"

text \<open>
  \<open>runSimulation\<close>: the statements before the loop (\<open>startSimulation\<close>), the loop, and
  the two statements after it.
\<close>

definition startSimulation :: "AutoState \<Rightarrow> AutoState" where
  "startSimulation st =
     st\<lparr>isSimulating := True, simulationStopped := False,
        stayStats := \<lparr>wins = 0, losses = 0\<rparr>,
        switchStats := \<lparr>wins = 0, losses = 0\<rparr>,
        progress := 0, animationData := []\<rparr>"

definition runSimulation ::
  "nat \<Rightarrow> nat \<Rightarrow> nat \<Rightarrow> int \<Rightarrow> (nat \<Rightarrow> SleepEvent) \<Rightarrow> AutoState \<Rightarrow> nat list
     \<Rightarrow> (AutoState \<times> AutoState list \<times> nat list) option"
where
  "runSimulation n P simulations speed duringSleep st tape =
     (let st0 = startSimulation st;
          delay = max 0 (100 - speed)
      in case simulationLoop n P simulations delay duringSleep [1..<simulations + 1] 0 0 st0
                tape [] of
           None \<Rightarrow> None
         | Some (st', seen, rest) \<Rightarrow>
             Some (st'\<lparr>progress := 100, isSimulating := False\<rparr>, seen, rest))"

text \<open>The state of the batch simulator when the component is mounted.\<close>

definition initialAuto :: AutoState where
  "initialAuto =
     \<lparr>isSimulating = False, progress = 0,
      stayStats = \<lparr>wins = 0, losses = 0\<rparr>, switchStats = \<lparr>wins = 0, losses = 0\<rparr>,
      animationData = [], simulationStopped = False\<rparr>"


text \<open>
  \<open>k\<close> complete trials in a row, as the loop of \<open>runSimulation\<close> chains them: the win
  counters and the tape of one trial go into the next.
\<close>

fun runTrials :: "nat \<Rightarrow> nat \<Rightarrow> nat \<Rightarrow> int \<Rightarrow> int \<Rightarrow> nat list \<Rightarrow> (int \<times> int \<times> nat list) option" where
  "runTrials n P 0 localStayWins localSwitchWins tape =
     Some (localStayWins, localSwitchWins, tape)"
| "runTrials n P (Suc k) localStayWins localSwitchWins tape =
     (case runTrial n P localStayWins localSwitchWins tape of
        None \<Rightarrow> None
      | Some (currentDoors, playerChoice, stayWins', switchWins', rest) \<Rightarrow>
          runTrials n P k stayWins' switchWins' rest)"


definition neverStop :: "nat \<Rightarrow> SleepEvent" where
  "neverStop i = NoClick"

definition restartAfter :: "nat \<Rightarrow> nat \<Rightarrow> SleepEvent" where
  "restartAfter k i = (if i = k then Interference else NoClick)"

subsection \<open>Auxiliary notions for the proofs\<close>

text \<open>The indices of the doors that hold a prize, for both kinds of board.\<close>

definition prizeIndices :: "DoorState list \<Rightarrow> nat set" where
  "prizeIndices ds = set (filter (\<lambda>k. hasPrize (ds ! k)) [0..<length ds])"

definition trueIndices :: "bool list \<Rightarrow> nat set" where
  "trueIndices arr = set (filter (\<lambda>k. arr ! k) [0..<length arr])"

subsection \<open>Example states\<close>

text \<open>
  A manual game on three doors with the prize behind door 1, as \<open>resetManualGame\<close>
  produces it, and the states it passes through when the player picks door 0, the host
  opens door 2 and the player switches to door 1.
\<close>

definition exampleFresh :: ManualGame where
  "exampleFresh =
     \<lparr>doors = [closedDoor, closedDoor\<lparr>hasPrize := True\<rparr>, closedDoor],
      gameState = Initial, message = ChooseOneOf 3,
      manualStats = \<lparr>stayWins = 0, switchWins = 0, total = 0\<rparr>\<rparr>"

definition examplePicked :: ManualGame where
  "examplePicked =
     \<lparr>doors = [closedDoor\<lparr>isSelected := True\<rparr>, closedDoor\<lparr>hasPrize := True\<rparr>, closedDoor],
      gameState = Picked, message = ChooseOneOf 3,
      manualStats = \<lparr>stayWins = 0, switchWins = 0, total = 0\<rparr>\<rparr>"

definition exampleRevealed :: ManualGame where
  "exampleRevealed =
     \<lparr>doors = [closedDoor\<lparr>isSelected := True\<rparr>, closedDoor\<lparr>hasPrize := True\<rparr>,
               closedDoor\<lparr>isOpen := True\<rparr>],
      gameState = Revealed, message = KeepOrSwitch,
      manualStats = \<lparr>stayWins = 0, switchWins = 0, total = 0\<rparr>\<rparr>"

definition exampleFinished :: ManualGame where
  "exampleFinished =
     \<lparr>doors = [closedDoor\<lparr>isOpen := True\<rparr>,
               closedDoor\<lparr>hasPrize := True, isOpen := True, isSelected := True\<rparr>,
               closedDoor\<lparr>isOpen := True\<rparr>],
      gameState = Finished, message = SwitchedAndWon,
      manualStats = \<lparr>stayWins = 0, switchWins = 1, total = 1\<rparr>\<rparr>"

text \<open>
  A manual game on four doors with prizes behind doors 0 and 1, as \<open>resetManualGame\<close>
  produces it.
\<close>

definition exampleTwoPrizes :: ManualGame where
  "exampleTwoPrizes =
     \<lparr>doors = [closedDoor\<lparr>hasPrize := True\<rparr>, closedDoor\<lparr>hasPrize := True\<rparr>,
               closedDoor, closedDoor],
      gameState = Initial, message = ChooseOneOf 4,
      manualStats = \<lparr>stayWins = 0, switchWins = 0, total = 0\<rparr>\<rparr>"

text \<open>
  A batch run of two trials on three doors with one prize, at speed 0. The tape gives:
  trial 1, prize behind door 0, player picks door 1, host opens door 2, the switch goes
  to door 0; trial 2, prize behind door 1, player picks door 1. The states below are what
  is seen after trial 1 and after trial 2 and when the run is over; then the same for the
  run in which the stop button is clicked during the sleep after trial 1.
\<close>

definition exampleTape :: "nat list" where
  "exampleTape = [0, 1, 0, 0, 1, 1]"

definition exampleAfterTrial1 :: AutoState where
  "exampleAfterTrial1 =
     \<lparr>isSimulating = True, progress = 50,
      stayStats = \<lparr>wins = 0, losses = 1\<rparr>, switchStats = \<lparr>wins = 1, losses = 0\<rparr>,
      animationData = [Loss], simulationStopped = False\<rparr>"

definition exampleAfterTrial2 :: AutoState where
  "exampleAfterTrial2 =
     \<lparr>isSimulating = True, progress = 100,
      stayStats = \<lparr>wins = 1, losses = 1\<rparr>, switchStats = \<lparr>wins = 1, losses = 1\<rparr>,
      animationData = [Loss, Win], simulationStopped = False\<rparr>"

definition exampleCompleted :: AutoState where
  "exampleCompleted = exampleAfterTrial2\<lparr>isSimulating := False\<rparr>"

definition exampleStopClicked :: AutoState where
  "exampleStopClicked = exampleAfterTrial1\<lparr>isSimulating := False, simulationStopped := True\<rparr>"

definition exampleCancelled :: AutoState where
  "exampleCancelled = exampleStopClicked\<lparr>progress := 100\<rparr>"

text \<open>
  A batch run of one trial on four doors with two prizes: prizes behind doors 0 and 1,
  the player picks door 0.
\<close>

definition examplePrizePickSeen :: AutoState where
  "examplePrizePickSeen =
     \<lparr>isSimulating = True, progress = 100,
      stayStats = \<lparr>wins = 1, losses = 0\<rparr>, switchStats = \<lparr>wins = 0, losses = 1\<rparr>,
      animationData = [Win], simulationStopped = False\<rparr>"

section \<open>Properties\<close>

subsection \<open>Random choices\<close>

subsection \<open>Numbers\<close>

declare bitLength.simps [simp del]

lemma bitLength_bounds:
  "0 < v \<Longrightarrow> 2 ^ (bitLength v - 1) \<le> v \<and> v < 2 ^ bitLength v"
proof (induction v rule: bitLength.induct)
  case (1 v)
  show ?case
  proof (cases "v = 1")
    case True
    then show ?thesis by (simp add: bitLength.simps [of 1] bitLength.simps [of 0])
  next
    case False
    with "1.prems" have pos: "0 < v div 2" by simp
    from "1.IH" "1.prems" pos
    have ih: "2 ^ (bitLength (v div 2) - 1) \<le> v div 2" "v div 2 < 2 ^ bitLength (v div 2)"
      by simp_all
    from pos have nz: "bitLength (v div 2) \<noteq> 0"
      by (simp add: bitLength.simps [of "v div 2"])
    have bl: "bitLength v = Suc (bitLength (v div 2))"
      using "1.prems" by (simp add: bitLength.simps [of v])
    from nz obtain k where k: "bitLength (v div 2) = Suc k" by (cases "bitLength (v div 2)") auto
    from ih k have "2 * 2 ^ k \<le> 2 * (v div 2)" by simp
    also have "\<dots> \<le> v" by simp
    finally have low: "2 ^ (bitLength v - 1) \<le> v" by (simp add: bl k)
    from ih(2) have "v div 2 + 1 \<le> 2 ^ bitLength (v div 2)" by simp
    then have "2 * (v div 2) + 2 \<le> 2 * 2 ^ bitLength (v div 2)" by simp
    moreover have "v < 2 * (v div 2) + 2" by simp
    ultimately have "v < 2 ^ bitLength v" by (simp add: bl)
    with low show ?thesis by simp
  qed
qed

lemma roundToDouble_small: "v < 2 ^ 53 \<Longrightarrow> roundToDouble v = v"
  by (simp add: roundToDouble_def)

lemma roundToDouble_large:
  assumes "2 ^ 53 \<le> v"
  shows "2 \<le> roundToDouble v"
proof -
  from assms have pos: "0 < v" by (simp add: order.strict_trans2 [of 0 "2 ^ 53"])
  note b = bitLength_bounds [OF pos]
  define e where "e = bitLength v - 53"
  have bl: "53 < bitLength v"
  proof (rule ccontr)
    assume "\<not> 53 < bitLength v"
    then have "bitLength v \<le> 53" by simp
    then have "(2::int) ^ bitLength v \<le> 2 ^ 53" by (intro power_increasing) simp_all
    with b assms show False by linarith
  qed
  then have e: "1 \<le> e" and ble: "e \<le> bitLength v - 1" by (simp_all add: e_def)
  have "(2::int) ^ e \<le> 2 ^ (bitLength v - 1)"
    using ble by (intro power_increasing) simp_all
  also have "\<dots> \<le> v" using b by simp
  finally have "2 ^ e \<le> v" .
  then have "0 < v div 2 ^ e"
    using pos_imp_zdiv_pos_iff [of "2 ^ e" v] by simp
  then have q: "1 \<le> v div 2 ^ e" by simp
  have two: "(2::int) \<le> 2 ^ e"
    using power_increasing [of 1 e "2::int"] e by simp
  define m where "m = (if v mod 2 ^ e < 2 ^ (e - 1) then v div 2 ^ e
            else if 2 ^ (e - 1) < v mod 2 ^ e then v div 2 ^ e + 1
            else if even (v div 2 ^ e) then v div 2 ^ e else v div 2 ^ e + 1)"
  have m: "1 \<le> m" using q by (simp add: m_def)
  have "2 \<le> 1 * (2::int) ^ e" using two by simp
  also have "\<dots> \<le> m * 2 ^ e" using m by (intro mult_right_mono) simp_all
  finally have "2 \<le> m * 2 ^ e" .
  moreover have "roundToDouble v = m * 2 ^ e"
    using assms by (simp add: roundToDouble_def Let_def e_def m_def)
  ultimately show ?thesis by simp
qed

lemma toNumber_not_NaN: "toNumber v \<noteq> NaN"
  by (simp add: toNumber_def Let_def)

lemma jsLess_toNumber_two: "jsLess (toNumber k) (Finite 2) = (k < 2)"
proof (cases "\<bar>k\<bar> < 2 ^ 53")
  case True
  then have "roundToDouble \<bar>k\<bar> = \<bar>k\<bar>" by (rule roundToDouble_small)
  with True show ?thesis by (simp add: toNumber_def Let_def)
next
  case False
  then have big: "2 ^ 53 \<le> \<bar>k\<bar>" by simp
  note r = roundToDouble_large [OF big]
  show ?thesis
  proof (cases "k < 0")
    case True
    with r show ?thesis by (simp add: toNumber_def Let_def)
  next
    case False
    with big have "2 ^ 53 \<le> k" by simp
    then have "\<not> k < 2" by simp
    with False r show ?thesis by (simp add: toNumber_def Let_def)
  qed
qed

lemma validate_Finite:
  "validate (Finite d) (Finite p) =
     (if d < 3 then Some TooFewDoors
      else if p < 1 then Some TooFewPrizes
      else if d \<le> p then Some TooManyPrizes
      else if d - p < 2 then Some InsufficientSwitchChoice
      else None)"
  by (simp add: validate_def isNaN_def jsGreaterEq_def jsLess_toNumber_two)

lemma validConfig_iff: "validConfig n P \<longleftrightarrow> 3 \<le> n \<and> 1 \<le> P \<and> P + 2 \<le> n"
  by (auto simp: validConfig_def validate_Finite)

lemma randomIndex_less: "0 < n \<Longrightarrow> randomIndex r n < n"
  by (simp add: randomIndex_def)

lemma pickRandom_nonempty: "xs \<noteq> [] \<Longrightarrow> \<exists>x\<in>set xs. pickRandom xs r = Some x"
  by (simp add: pickRandom_def Let_def randomIndex_less)

lemma pickRandom_mem: "pickRandom xs r = Some x \<Longrightarrow> x \<in> set xs"
  by (auto simp: pickRandom_def Let_def split: if_splits)

subsection \<open>Board generation\<close>

lemma count_update_new:
  assumes "i < length xs" and "\<not> p (xs ! i)" and "p y"
  shows "length (filter p (xs[i := y])) = Suc (length (filter p xs))"
proof -
  have xs: "xs = take i xs @ xs ! i # drop (Suc i) xs"
    using assms(1) by (rule id_take_nth_drop)
  have "length (filter p (xs[i := y]))
          = length (filter p (take i xs)) + 1 + length (filter p (drop (Suc i) xs))"
    using assms(1,3) by (simp add: upd_conv_take_nth_drop)
  moreover have "length (filter p xs)
          = length (filter p (take i xs)) + length (filter p (drop (Suc i) xs))"
    using assms(2) by (subst xs) simp
  ultimately show ?thesis by simp
qed

lemma prizeIndices_update:
  "i < length ds \<Longrightarrow> prizeIndices (ds[i := (ds ! i)\<lparr>hasPrize := True\<rparr>]) = insert i (prizeIndices ds)"
  by (auto simp: prizeIndices_def nth_list_update)

lemma setupDoorsLoop_result:
  "setupDoorsLoop n P ds placed t = Some (Inr (ds', rest)) \<Longrightarrow>
   length (filter hasPrize ds) = placed \<Longrightarrow> placed \<le> P \<Longrightarrow>
   length ds' = length ds \<and> length (filter hasPrize ds') = P"
proof (induction t arbitrary: ds placed)
  case Nil
  then show ?case by (simp split: if_splits)
next
  case (Cons r rs)
  show ?case
  proof (cases "placed < P")
    case False
    with Cons.prems show ?thesis by simp
  next
    case True
    let ?pos = "randomIndex r n"
    from Cons.prems(1) True have inrange: "?pos < length ds"
      by (simp add: Let_def split: if_splits)
    show ?thesis
    proof (cases "hasPrize (ds ! ?pos)")
      case True
      with Cons.prems \<open>placed < P\<close> inrange
      have "setupDoorsLoop n P ds placed rs = Some (Inr (ds', rest))" by (simp add: Let_def)
      from Cons.IH [OF this Cons.prems(2,3)] show ?thesis .
    next
      case False
      let ?ds = "ds[?pos := (ds ! ?pos)\<lparr>hasPrize := True\<rparr>]"
      from Cons.prems \<open>placed < P\<close> inrange False
      have run: "setupDoorsLoop n P ?ds (placed + 1) rs = Some (Inr (ds', rest))"
        by (simp add: Let_def)
      have cnt: "length (filter hasPrize ?ds) = placed + 1"
        using count_update_new [of ?pos ds hasPrize] inrange False Cons.prems(2) by simp
      from Cons.IH [OF run cnt] \<open>placed < P\<close> show ?thesis by simp
    qed
  qed
qed

lemma setupDoorsLoop_no_throw:
  "length ds = n \<Longrightarrow> 0 < n \<Longrightarrow> setupDoorsLoop n P ds placed t \<noteq> Some (Inl e)"
  by (induction t arbitrary: ds placed) (simp_all add: Let_def randomIndex_less)

lemma setupDoors_below:
  "n < 4294967296 \<Longrightarrow> setupDoors n P tape = setupDoorsLoop n P (replicate n closedDoor) 0 tape"
  by (simp add: setupDoors_def maxArrayLength_def)

lemma setupDoors_above:
  "4294967296 \<le> n \<Longrightarrow> setupDoors n P tape = Some (Inl RangeError)"
  by (simp add: setupDoors_def maxArrayLength_def)

lemma setupDoors_returned:
  "setupDoors n P tape = Some (Inr x) \<Longrightarrow>
   n < 4294967296 \<and> setupDoorsLoop n P (replicate n closedDoor) 0 tape = Some (Inr x)"
  by (simp add: setupDoors_def maxArrayLength_def split: if_splits)

lemma setupDoorsLoop_terminates:
  "length ds = n \<Longrightarrow> 0 < n \<Longrightarrow>
   P \<le> placed + card ((\<lambda>r. randomIndex r n) ` set t - prizeIndices ds) \<Longrightarrow>
   \<exists>ds' rest. setupDoorsLoop n P ds placed t = Some (Inr (ds', rest))"
proof (induction t arbitrary: ds placed)
  case Nil
  then show ?case by simp
next
  case (Cons r rs)
  let ?pos = "randomIndex r n"
  have inrange: "?pos < length ds" using Cons.prems(1,2) by (simp add: randomIndex_less)
  show ?case
  proof (cases "placed < P")
    case False
    then show ?thesis by simp
  next
    case True
    show ?thesis
    proof (cases "hasPrize (ds ! ?pos)")
      case True
      then have "?pos \<in> prizeIndices ds" using inrange by (simp add: prizeIndices_def)
      then have "(\<lambda>r. randomIndex r n) ` set (r # rs) - prizeIndices ds
                 = (\<lambda>r. randomIndex r n) ` set rs - prizeIndices ds" by auto
      with Cons.prems(3) have "P \<le> placed + card ((\<lambda>r. randomIndex r n) ` set rs - prizeIndices ds)"
        by simp
      from Cons.IH [OF Cons.prems(1,2) this] True \<open>placed < P\<close> inrange
      show ?thesis by (simp add: Let_def)
    next
      case False
      let ?ds = "ds[?pos := (ds ! ?pos)\<lparr>hasPrize := True\<rparr>]"
      let ?I = "(\<lambda>r. randomIndex r n) ` set rs"
      have "(\<lambda>r. randomIndex r n) ` set (r # rs) - prizeIndices ds
              \<subseteq> insert ?pos (?I - prizeIndices ?ds)"
        using inrange by (auto simp: prizeIndices_update)
      then have "card ((\<lambda>r. randomIndex r n) ` set (r # rs) - prizeIndices ds)
              \<le> card (insert ?pos (?I - prizeIndices ?ds))"
        by (intro card_mono) auto
      also have "\<dots> \<le> Suc (card (?I - prizeIndices ?ds))"
        by (simp add: card_insert_if)
      finally have "P \<le> (placed + 1) + card (?I - prizeIndices ?ds)"
        using Cons.prems(3) by simp
      moreover have "length ?ds = n" using Cons.prems(1) by simp
      ultimately have "\<exists>ds' rest. setupDoorsLoop n P ?ds (placed + 1) rs = Some (Inr (ds', rest))"
        using Cons.IH Cons.prems(2) by blast
      with False \<open>placed < P\<close> inrange show ?thesis by (simp add: Let_def)
    qed
  qed
qed


lemma setupDoorsLoop_flags:
  "setupDoorsLoop n P ds placed t = Some (Inr (ds', rest)) \<Longrightarrow>
   \<forall>d\<in>set ds. \<not> isSelected d \<and> \<not> isOpen d \<Longrightarrow>
   \<forall>d\<in>set ds'. \<not> isSelected d \<and> \<not> isOpen d"
proof (induction t arbitrary: ds placed)
  case Nil
  then show ?case by (simp split: if_splits)
next
  case (Cons r rs)
  let ?pos = "randomIndex r n"
  let ?ds = "ds[?pos := (ds ! ?pos)\<lparr>hasPrize := True\<rparr>]"
  have upd: "?pos < length ds \<Longrightarrow> \<forall>d\<in>set ?ds. \<not> isSelected d \<and> \<not> isOpen d"
  proof
    fix d assume "?pos < length ds" and "d \<in> set ?ds"
    then have "d = (ds ! ?pos)\<lparr>hasPrize := True\<rparr> \<or> d \<in> set ds"
      using set_update_subset_insert [of ds ?pos] by auto
    with Cons.prems(2) \<open>?pos < length ds\<close> show "\<not> isSelected d \<and> \<not> isOpen d"
      by auto
  qed
  from Cons.prems(1) show ?case
    using Cons.IH [of ds placed] Cons.IH [of ?ds "placed + 1"] Cons.prems(2) upd
    by (auto simp: Let_def split: if_splits)
qed

lemma trueIndices_update:
  "i < length arr \<Longrightarrow> trueIndices (arr[i := True]) = insert i (trueIndices arr)"
  by (auto simp: trueIndices_def nth_list_update)

lemma trialBoardLoop_result:
  "trialBoardLoop n P cd placed t = Some (cd', rest) \<Longrightarrow> length cd = n \<Longrightarrow> 0 < n \<Longrightarrow>
   length (filter id cd) = placed \<Longrightarrow> placed \<le> P \<Longrightarrow>
   length cd' = n \<and> length (filter id cd') = P"
proof (induction t arbitrary: cd placed)
  case Nil
  then show ?case by (simp split: if_splits)
next
  case (Cons r rs)
  show ?case
  proof (cases "placed < P")
    case False
    with Cons.prems show ?thesis by simp
  next
    case True
    let ?pos = "randomIndex r n"
    have inrange: "?pos < length cd" using Cons.prems(2,3) by (simp add: randomIndex_less)
    show ?thesis
    proof (cases "cd ! ?pos")
      case True
      with Cons.prems(1) \<open>placed < P\<close> inrange
      have "trialBoardLoop n P cd placed rs = Some (cd', rest)"
        by (simp add: Let_def truthyAt_def)
      from Cons.IH [OF this Cons.prems(2-5)] show ?thesis .
    next
      case False
      let ?cd = "cd[?pos := True]"
      from Cons.prems(1) \<open>placed < P\<close> inrange False
      have run: "trialBoardLoop n P ?cd (placed + 1) rs = Some (cd', rest)"
        by (simp add: Let_def truthyAt_def assignTrue_def)
      have cnt: "length (filter id ?cd) = placed + 1"
        using count_update_new [of ?pos cd id True] inrange False Cons.prems(4) by simp
      have len: "length ?cd = n" using Cons.prems(2) by simp
      from Cons.IH [OF run len Cons.prems(3) cnt] \<open>placed < P\<close> show ?thesis by simp
    qed
  qed
qed

lemma trialBoardLoop_terminates:
  "length cd = n \<Longrightarrow> 0 < n \<Longrightarrow>
   P \<le> placed + card ((\<lambda>r. randomIndex r n) ` set t - trueIndices cd) \<Longrightarrow>
   \<exists>cd' rest. trialBoardLoop n P cd placed t = Some (cd', rest)"
proof (induction t arbitrary: cd placed)
  case Nil
  then show ?case by simp
next
  case (Cons r rs)
  let ?pos = "randomIndex r n"
  have inrange: "?pos < length cd" using Cons.prems(1,2) by (simp add: randomIndex_less)
  show ?case
  proof (cases "placed < P")
    case False
    then show ?thesis by simp
  next
    case True
    show ?thesis
    proof (cases "cd ! ?pos")
      case True
      then have "?pos \<in> trueIndices cd" using inrange by (simp add: trueIndices_def)
      then have "(\<lambda>r. randomIndex r n) ` set (r # rs) - trueIndices cd
                 = (\<lambda>r. randomIndex r n) ` set rs - trueIndices cd" by auto
      with Cons.prems(3) have "P \<le> placed + card ((\<lambda>r. randomIndex r n) ` set rs - trueIndices cd)"
        by simp
      from Cons.IH [OF Cons.prems(1,2) this] True \<open>placed < P\<close> inrange
      show ?thesis by (simp add: Let_def truthyAt_def)
    next
      case False
      let ?cd = "cd[?pos := True]"
      let ?I = "(\<lambda>r. randomIndex r n) ` set rs"
      have "(\<lambda>r. randomIndex r n) ` set (r # rs) - trueIndices cd
              \<subseteq> insert ?pos (?I - trueIndices ?cd)"
        using inrange by (auto simp: trueIndices_update)
      then have "card ((\<lambda>r. randomIndex r n) ` set (r # rs) - trueIndices cd)
              \<le> card (insert ?pos (?I - trueIndices ?cd))"
        by (intro card_mono) auto
      also have "\<dots> \<le> Suc (card (?I - trueIndices ?cd))"
        by (simp add: card_insert_if)
      finally have "P \<le> (placed + 1) + card (?I - trueIndices ?cd)"
        using Cons.prems(3) by simp
      moreover have "length ?cd = n" using Cons.prems(1) by simp
      ultimately have "\<exists>cd' rest. trialBoardLoop n P ?cd (placed + 1) rs = Some (cd', rest)"
        using Cons.IH Cons.prems(2) by blast
      with False \<open>placed < P\<close> inrange show ?thesis
        by (simp add: Let_def truthyAt_def assignTrue_def)
    qed
  qed
qed

lemma setupDoors_props:
  assumes "0 < n" and "n < 4294967296"
  shows "setupDoors n P tape \<noteq> Some (Inl e)"
    and "setupDoors n P tape = Some (Inr (ds, rest)) \<Longrightarrow>
           length ds = n \<and> length (filter hasPrize ds) = P
           \<and> length (filter (\<lambda>d. \<not> hasPrize d) ds) = n - P
           \<and> (\<forall>d\<in>set ds. \<not> isSelected d \<and> \<not> isOpen d)"
    and "P \<le> card ((\<lambda>r. randomIndex r n) ` set tape) \<Longrightarrow>
           \<exists>ds rest. setupDoors n P tape = Some (Inr (ds, rest))"
proof -
  let ?ds0 = "replicate n closedDoor"
  show "setupDoors n P tape \<noteq> Some (Inl e)"
    unfolding setupDoors_below [OF assms(2)] using assms(1)
    by (intro setupDoorsLoop_no_throw) simp_all
  have cnt0: "length (filter hasPrize ?ds0) = 0" by (simp add: closedDoor_def)
  {
    assume run: "setupDoors n P tape = Some (Inr (ds, rest))"
    then have run': "setupDoorsLoop n P ?ds0 0 tape = Some (Inr (ds, rest))"
      by (simp add: setupDoors_below [OF assms(2)])
    from setupDoorsLoop_result [OF run' cnt0]
    have a: "length ds = n" "length (filter hasPrize ds) = P" by simp_all
    have b: "length (filter (\<lambda>d. \<not> hasPrize d) ds) = n - P"
      using sum_length_filter_compl [of hasPrize ds] a by simp
    have c: "\<forall>d\<in>set ds. \<not> isSelected d \<and> \<not> isOpen d"
      using setupDoorsLoop_flags [OF run'] by (simp add: closedDoor_def)
    from a b c show "length ds = n \<and> length (filter hasPrize ds) = P
           \<and> length (filter (\<lambda>d. \<not> hasPrize d) ds) = n - P
           \<and> (\<forall>d\<in>set ds. \<not> isSelected d \<and> \<not> isOpen d)" by simp
  }
  {
    assume "P \<le> card ((\<lambda>r. randomIndex r n) ` set tape)"
    moreover have "prizeIndices ?ds0 = {}" by (simp add: prizeIndices_def closedDoor_def)
    ultimately show "\<exists>ds rest. setupDoors n P tape = Some (Inr (ds, rest))"
      unfolding setupDoors_below [OF assms(2)] using assms(1)
      by (intro setupDoorsLoop_terminates) simp_all
  }
qed

lemma trialBoard_props:
  assumes "0 < n"
  shows "trialBoard n P tape = Some (cd, rest) \<Longrightarrow>
           length cd = n \<and> length (filter id cd) = P
           \<and> length (filter (\<lambda>b. \<not> b) cd) = n - P"
    and "P \<le> card ((\<lambda>r. randomIndex r n) ` set tape) \<Longrightarrow>
           \<exists>cd rest. trialBoard n P tape = Some (cd, rest)"
proof -
  let ?cd0 = "replicate n False"
  {
    assume run: "trialBoard n P tape = Some (cd, rest)"
    then have run': "trialBoardLoop n P ?cd0 0 tape = Some (cd, rest)"
      by (simp add: trialBoard_def)
    have "length cd = n \<and> length (filter id cd) = P"
      using trialBoardLoop_result [OF run'] assms by simp
    moreover have "length (filter (\<lambda>b. \<not> b) cd) = length cd - length (filter id cd)"
      using sum_length_filter_compl [of id cd] by simp
    ultimately show "length cd = n \<and> length (filter id cd) = P
           \<and> length (filter (\<lambda>b. \<not> b) cd) = n - P" by simp
  }
  {
    assume "P \<le> card ((\<lambda>r. randomIndex r n) ` set tape)"
    moreover have "trueIndices ?cd0 = {}" by (simp add: trueIndices_def)
    ultimately show "\<exists>cd rest. trialBoard n P tape = Some (cd, rest)"
      unfolding trialBoard_def using assms
      by (intro trialBoardLoop_terminates) simp_all
  }
qed

lemma prizeIndices_card: "card (prizeIndices ds) = length (filter hasPrize ds)"
  by (simp add: prizeIndices_def length_filter_conv_card)

lemma trueIndices_card: "card (trueIndices arr) = length (filter id arr)"
  by (simp add: trueIndices_def length_filter_conv_card)

lemma setupDoorsLoop_drawn:
  "setupDoorsLoop n P ds placed t = Some (Inr (ds', rest)) \<Longrightarrow>
   prizeIndices ds' \<subseteq> prizeIndices ds \<union> (\<lambda>r. randomIndex r n) ` set t"
proof (induction t arbitrary: ds placed)
  case Nil
  then show ?case by (simp split: if_splits)
next
  case (Cons r rs)
  let ?pos = "randomIndex r n"
  let ?ds = "ds[?pos := (ds ! ?pos)\<lparr>hasPrize := True\<rparr>]"
  from Cons.prems show ?case
    using Cons.IH [of ds placed] Cons.IH [of ?ds "placed + 1"] prizeIndices_update [of ?pos ds]
    by (auto simp: Let_def split: if_splits)
qed

lemma trialBoardLoop_drawn:
  "trialBoardLoop n P cd placed t = Some (cd', rest) \<Longrightarrow> length cd = n \<Longrightarrow> 0 < n \<Longrightarrow>
   trueIndices cd' \<subseteq> trueIndices cd \<union> (\<lambda>r. randomIndex r n) ` set t"
proof (induction t arbitrary: cd placed)
  case Nil
  then show ?case by (simp split: if_splits)
next
  case (Cons r rs)
  let ?pos = "randomIndex r n"
  let ?cd = "cd[?pos := True]"
  have inrange: "?pos < length cd" using Cons.prems(2,3) by (simp add: randomIndex_less)
  then have upd: "assignTrue cd ?pos = ?cd" by (simp add: assignTrue_def)
  from Cons.prems show ?case
    using Cons.IH [of cd placed] Cons.IH [of ?cd "placed + 1"] trueIndices_update [of ?pos cd]
      inrange upd
    by (auto simp: Let_def split: if_splits)
qed

lemma setupDoors_example: "setupDoors 4 2 [0, 4, 1] =
       Some (Inr ([closedDoor\<lparr>hasPrize := True\<rparr>, closedDoor\<lparr>hasPrize := True\<rparr>,
                   closedDoor, closedDoor], []))"
  by code_simp

lemma trialBoard_example: "trialBoard 4 2 [0, 4, 1] = Some ([True, True, False, False], [])"
  by code_simp

lemma setupDoors_example_unfinished: "setupDoors 4 2 [0, 4] = None"
  by code_simp

lemma drawn_example: "card ((\<lambda>r. randomIndex r 4) ` set [0, 4, 1]) = 2" "card ((\<lambda>r. randomIndex r 4) ` set [0, 4]) = 1"
  by (simp_all add: randomIndex_def)


lemma large_config_accepted:
  "validate (parseInt (ascii ''4294967296'')) (parseInt (ascii ''1'')) = None"
  by code_simp

lemma large_config_mount: "mountManual 4294967296 1 [0] = Some (Inl RangeError)"
  by (simp add: mountManual_def setupDoors_above)

text \<open>
  Claim C5, as stated, fails: \<open>validate\<close> accepts \<open>2^32\<close> doors with one prize, and for
  this configuration \<^verbatim>\<open>Array(numberOfDoors)\<close> in \<open>setupDoors\<close> throws a \<^verbatim>\<open>RangeError\<close>
  instead of returning a board, whatever the random source delivers.
\<close>

theorem board_generation_range_error_counterexample:
  "validConfig 4294967296 1
   \<and> validate (parseInt (ascii ''4294967296'')) (parseInt (ascii ''1'')) = None
   \<and> setupDoors 4294967296 1 [0] = Some (Inl RangeError)
   \<and> mountManual 4294967296 1 [0] = Some (Inl RangeError)"
  unfolding large_config_accepted large_config_mount
  by (simp add: validConfig_iff setupDoors_above)

text \<open>
  Claim C5, as amended. For every valid configuration with fewer than \<open>2^32\<close> doors
  both board generators, \<open>setupDoors\<close> of the manual game and the board loop of a batch
  trial, never throw, and the board they return has length \<open>n\<close>, exactly \<open>P\<close> doors with
  a prize and \<open>n - P\<close> doors without. Each loop returns exactly when the random source
  has delivered \<open>P\<close> different door indices: it is still running at the end of the tape
  only if the tape holds fewer.
\<close>

theorem board_generation_below_array_bound:
  assumes "validConfig n P" and "n < 4294967296"
  shows "(case setupDoors n P tape of
            None \<Rightarrow> card ((\<lambda>r. randomIndex r n) ` set tape) < P
          | Some (Inl e) \<Rightarrow> False
          | Some (Inr (ds, rest)) \<Rightarrow>
              length ds = n \<and> length (filter hasPrize ds) = P
              \<and> length (filter (\<lambda>d. \<not> hasPrize d) ds) = n - P
              \<and> P \<le> card ((\<lambda>r. randomIndex r n) ` set tape))
       \<and> (case trialBoard n P tape of
            None \<Rightarrow> card ((\<lambda>r. randomIndex r n) ` set tape) < P
          | Some (cd, rest) \<Rightarrow>
              length cd = n \<and> length (filter id cd) = P
              \<and> length (filter (\<lambda>b. \<not> b) cd) = n - P
              \<and> P \<le> card ((\<lambda>r. randomIndex r n) ` set tape))"
proof -
  let ?I = "(\<lambda>r. randomIndex r n) ` set tape"
  from assms have n: "0 < n" by (simp add: validConfig_iff)
  have manual: "case setupDoors n P tape of
            None \<Rightarrow> card ?I < P
          | Some (Inl e) \<Rightarrow> False
          | Some (Inr (ds, rest)) \<Rightarrow>
              length ds = n \<and> length (filter hasPrize ds) = P
              \<and> length (filter (\<lambda>d. \<not> hasPrize d) ds) = n - P \<and> P \<le> card ?I"
  proof (cases "setupDoors n P tape")
    case None
    with setupDoors_props(3) [OF n assms(2), of P tape] show ?thesis by fastforce
  next
    case (Some res)
    show ?thesis
    proof (cases res)
      case (Inl e)
      with Some setupDoors_props(1) [OF n assms(2), of P tape e] show ?thesis by simp
    next
      case (Inr pair)
      obtain ds rest where pair: "pair = (ds, rest)" by (cases pair)
      with Some Inr have run: "setupDoors n P tape = Some (Inr (ds, rest))" by simp
      note props = setupDoors_props(2) [OF n assms(2) run]
      have "prizeIndices ds \<subseteq> prizeIndices (replicate n closedDoor) \<union> ?I"
        using run unfolding setupDoors_below [OF assms(2)] by (rule setupDoorsLoop_drawn)
      then have "prizeIndices ds \<subseteq> ?I" by (simp add: prizeIndices_def closedDoor_def)
      then have "card (prizeIndices ds) \<le> card ?I" by (intro card_mono) simp_all
      with props have "P \<le> card ?I" by (simp add: prizeIndices_card)
      with props run show ?thesis by simp
    qed
  qed
  have batch: "case trialBoard n P tape of
            None \<Rightarrow> card ?I < P
          | Some (cd, rest) \<Rightarrow>
              length cd = n \<and> length (filter id cd) = P
              \<and> length (filter (\<lambda>b. \<not> b) cd) = n - P \<and> P \<le> card ?I"
  proof (cases "trialBoard n P tape")
    case None
    with trialBoard_props(2) [OF n, of P tape] show ?thesis by fastforce
  next
    case (Some pair)
    obtain cd rest where pair: "pair = (cd, rest)" by (cases pair)
    with Some have run: "trialBoard n P tape = Some (cd, rest)" by simp
    note props = trialBoard_props(1) [OF n run]
    have "trueIndices cd \<subseteq> trueIndices (replicate n False) \<union> ?I"
      using run n unfolding trialBoard_def by (intro trialBoardLoop_drawn) simp_all
    then have "trueIndices cd \<subseteq> ?I" by (simp add: trueIndices_def)
    then have "card (trueIndices cd) \<le> card ?I" by (intro card_mono) simp_all
    with props have "P \<le> card ?I" by (simp add: trueIndices_card)
    with props run show ?thesis by simp
  qed
  from manual batch show ?thesis by simp
qed

theorem board_generation_below_array_bound_witness:
  "validConfig 4 2 \<and> (4::nat) < 4294967296
   \<and> setupDoors 4 2 [0, 4, 1] =
       Some (Inr ([closedDoor\<lparr>hasPrize := True\<rparr>, closedDoor\<lparr>hasPrize := True\<rparr>,
                   closedDoor, closedDoor], []))
   \<and> trialBoard 4 2 [0, 4, 1] = Some ([True, True, False, False], [])
   \<and> 2 \<le> card ((\<lambda>r. randomIndex r 4) ` set [0, 4, 1])
   \<and> setupDoors 4 2 [0, 4] = None
   \<and> card ((\<lambda>r. randomIndex r 4) ` set [0, 4]) < 2"
  using board_generation_below_array_bound [of 4 2 "[0, 4, 1]"]
    board_generation_below_array_bound [of 4 2 "[0, 4]"]
  unfolding setupDoors_example trialBoard_example setupDoors_example_unfinished drawn_example
  by (simp add: validConfig_iff)

subsection \<open>The host\<close>

lemma length_mapIndexed [simp]: "length (mapIndexed f xs) = length xs"
  by (simp add: mapIndexed_def)

lemma nth_mapIndexed [simp]: "k < length xs \<Longrightarrow> mapIndexed f xs ! k = f (xs ! k) k"
  by (simp add: mapIndexed_def)

lemma hostOpenIndex_sound:
  "hostOpenIndex ds r = Some k \<Longrightarrow> k < length ds \<and> \<not> isSelected (ds ! k) \<and> \<not> hasPrize (ds ! k)"
  by (auto simp: hostOpenIndex_def hostOpenableDoors_def dest!: pickRandom_mem)

lemma hostOpened_sound:
  "hostOpened n cd pc r = Some k \<Longrightarrow> k < n \<and> k \<noteq> pc \<and> \<not> truthyAt cd k"
  by (auto simp: hostOpened_def hostOpenable_def otherDoors_def dest!: pickRandom_mem)

lemma first_click:
  assumes "gameState g0 = Initial" and "handleDoorClick g0 pick = Inr g1"
  shows "pick < length (doors g0)"
    and "g1 = g0\<lparr>doors := (doors g0)[pick := (doors g0 ! pick)\<lparr>isSelected := True\<rparr>],
                 gameState := Picked\<rparr>"
  using assms by (auto simp: handleDoorClick_def split: if_splits)

text \<open>The example game, step by step.\<close>

lemma example_first_click: "handleDoorClick exampleFresh 0 = Inr examplePicked"
  by code_simp

lemma example_host: "hostTimeout examplePicked 0 = exampleRevealed"
  by code_simp

lemma example_host_index: "hostOpenIndex (doors examplePicked) 0 = Some 2"
  by code_simp

lemma example_final_click: "handleDoorClick exampleRevealed 1 = Inr exampleFinished"
  by code_simp

lemma example_batch_host: "hostOpened 3 [False, True, False] 0 0 = Some 2"
  by code_simp

lemma example_facts:
  "gameState exampleFresh = Initial" "length (doors examplePicked) = 3"
  "isOpen (doors exampleRevealed ! 2)" "\<not> hasPrize (doors exampleFresh ! 2)"
  "\<not> hasPrize (doors exampleRevealed ! 2)"
  by (simp_all add: exampleFresh_def examplePicked_def exampleRevealed_def closedDoor_def)

lemma example_board_facts:
  "length (doors examplePicked) = 3" "length (filter hasPrize (doors examplePicked)) = 1"
  "\<forall>k<3. isSelected (doors examplePicked ! k) = (k = 0)"
  "hostOpenableDoors (doors examplePicked) = [2]"
  "hostOpenable 3 [False, True, False] 0 = [2]"
  by (simp_all add: examplePicked_def closedDoor_def hostOpenableDoors_def hostOpenable_def
      otherDoors_def truthyAt_def less_Suc_eq eval_nat_numeral upt_rec)

text \<open>
  Claim C3. The door the host reveals is never the picked door and never a prize door.
  Manual game: after the first click on door \<open>pick\<close>, every door that the host's timer
  callback leaves open is different from \<open>pick\<close> and has no prize, whatever the board and
  whether or not the picked door has a prize; in general the host's index is never a
  selected or a prize door. Batch simulator: the index \<open>hostOpened\<close> of a trial is never
  the player's choice and never a prize door, for every board and every choice.
\<close>

theorem host_never_reveals_pick_or_prize:
  "(gameState g0 = Initial \<and> handleDoorClick g0 pick = Inr g1 \<and> k < length (doors g1)
      \<and> isOpen (doors (hostTimeout g1 r) ! k)
     \<longrightarrow> k \<noteq> pick \<and> \<not> hasPrize (doors g0 ! k) \<and> \<not> hasPrize (doors (hostTimeout g1 r) ! k)
         \<and> hostOpenIndex (doors g1) r = Some k)
   \<and> (hostOpenIndex ds r = Some k
     \<longrightarrow> k < length ds \<and> \<not> isSelected (ds ! k) \<and> \<not> hasPrize (ds ! k))
   \<and> (hostOpened n cd pc r = Some k \<longrightarrow> k < n \<and> k \<noteq> pc \<and> \<not> truthyAt cd k)"
proof (intro conjI impI)
  assume a: "gameState g0 = Initial \<and> handleDoorClick g0 pick = Inr g1 \<and> k < length (doors g1)
      \<and> isOpen (doors (hostTimeout g1 r) ! k)"
  then have pick: "pick < length (doors g0)"
    and g1: "g1 = g0\<lparr>doors := (doors g0)[pick := (doors g0 ! pick)\<lparr>isSelected := True\<rparr>],
                 gameState := Picked\<rparr>"
    using first_click by blast+
  from a have k: "k < length (doors g1)" by simp
  with a have opened: "hostOpenIndex (doors g1) r = Some k"
    by (simp add: hostTimeout_def)
  note sound = hostOpenIndex_sound [OF opened]
  from sound g1 pick show "k \<noteq> pick" by auto
  from sound g1 pick show "\<not> hasPrize (doors g0 ! k)"
    by (cases "k = pick") (auto simp: nth_list_update)
  from sound k show "\<not> hasPrize (doors (hostTimeout g1 r) ! k)"
    by (simp add: hostTimeout_def)
  from opened show "hostOpenIndex (doors g1) r = Some k" .
next
  assume "hostOpenIndex ds r = Some k"
  then show "k < length ds" "\<not> isSelected (ds ! k)" "\<not> hasPrize (ds ! k)"
    using hostOpenIndex_sound by blast+
next
  assume "hostOpened n cd pc r = Some k"
  then show "k < n" "k \<noteq> pc" "\<not> truthyAt cd k"
    using hostOpened_sound by blast+
qed

theorem host_never_reveals_pick_or_prize_witness:
  "gameState exampleFresh = Initial \<and> handleDoorClick exampleFresh 0 = Inr examplePicked
   \<and> 2 < length (doors examplePicked) \<and> isOpen (doors (hostTimeout examplePicked 0) ! 2)
   \<and> \<not> hasPrize (doors exampleFresh ! 2)
   \<and> hostOpenIndex (doors examplePicked) 0 = Some 2
   \<and> \<not> isSelected (doors examplePicked ! 2)
   \<and> hostOpened 3 [False, True, False] 0 0 = Some 2
   \<and> \<not> truthyAt [False, True, False] 2"
  using host_never_reveals_pick_or_prize
    [where ?g0.0 = exampleFresh and pick = 0 and ?g1.0 = examplePicked and k = 2 and r = 0
       and ds = "doors examplePicked" and n = 3 and cd = "[False, True, False]" and pc = 0]
  unfolding example_first_click example_host example_host_index example_batch_host
  by (simp add: example_facts)

lemma validConfig_two_goats: "validConfig n P \<Longrightarrow> 2 \<le> n - P"
  by (auto simp: validConfig_iff)

lemma two_without_pick:
  assumes "2 \<le> card S"
  shows "\<exists>k\<in>S. k \<noteq> (pick::nat)"
proof (rule ccontr)
  assume "\<not> (\<exists>k\<in>S. k \<noteq> pick)"
  then have "S \<subseteq> {pick}" by auto
  then have "card S \<le> card {pick}" by (intro card_mono) simp_all
  with assms show False by simp
qed

lemma manual_host_can_open:
  assumes "validConfig n P" and "length ds = n" and "length (filter hasPrize ds) = P"
    and "pick < n" and "\<forall>k<n. isSelected (ds ! k) = (k = pick)"
  shows "hostOpenableDoors ds \<noteq> []" and "\<exists>k<n. hostOpenIndex ds r = Some k"
proof -
  have "length (filter (\<lambda>d. \<not> hasPrize d) ds) = n - P"
    using sum_length_filter_compl [of hasPrize ds] assms(2,3) by simp
  then have "card {k. k < length ds \<and> \<not> hasPrize (ds ! k)} = n - P"
    by (simp add: length_filter_conv_card)
  with validConfig_two_goats [OF assms(1)]
  have "2 \<le> card {k. k < length ds \<and> \<not> hasPrize (ds ! k)}" by simp
  from two_without_pick [OF this, of pick]
  obtain k where k: "k < length ds" "\<not> hasPrize (ds ! k)" "k \<noteq> pick" by auto
  with assms(2,5) have "k \<in> set (hostOpenableDoors ds)"
    by (simp add: hostOpenableDoors_def)
  then show ne: "hostOpenableDoors ds \<noteq> []" by auto
  from pickRandom_nonempty [OF ne, of r]
  obtain j where "hostOpenIndex ds r = Some j" by (auto simp: hostOpenIndex_def)
  with hostOpenIndex_sound [of ds r j] assms(2)
  show "\<exists>k<n. hostOpenIndex ds r = Some k" by auto
qed

lemma batch_host_can_open:
  assumes "validConfig n P" and "length cd = n" and "length (filter id cd) = P" and "pc < n"
  shows "hostOpenable n cd pc \<noteq> []" and "\<exists>k<n. hostOpened n cd pc r = Some k"
proof -
  have "length (filter (\<lambda>b. \<not> id b) cd) = n - P"
    using sum_length_filter_compl [of id cd] assms(2,3) by simp
  then have "card {k. k < length cd \<and> \<not> cd ! k} = n - P"
    by (simp add: length_filter_conv_card)
  with validConfig_two_goats [OF assms(1)]
  have "2 \<le> card {k. k < length cd \<and> \<not> cd ! k}" by simp
  from two_without_pick [OF this, of pc]
  obtain k where k: "k < length cd" "\<not> cd ! k" "k \<noteq> pc" by auto
  with assms(2) have "k \<in> set (hostOpenable n cd pc)"
    by (simp add: hostOpenable_def otherDoors_def truthyAt_def)
  then show ne: "hostOpenable n cd pc \<noteq> []" by auto
  from pickRandom_nonempty [OF ne, of r]
  obtain j where "hostOpened n cd pc r = Some j" by (auto simp: hostOpened_def)
  with hostOpened_sound [of n cd pc r j]
  show "\<exists>k<n. hostOpened n cd pc r = Some k" by auto
qed

text \<open>
  Claim C4. With a valid configuration (so \<open>n - P \<ge> 2\<close>), on every board of \<open>n\<close> doors
  with exactly \<open>P\<close> prizes and for every picked door, the list of doors the host may
  open is not empty and the host's random selection is a door index below \<open>n\<close>, never
  \<^verbatim>\<open>undefined\<close>: in the manual game, where exactly the picked door is selected, and
  in a batch trial.
\<close>

theorem host_always_has_openable_door:
  assumes "validConfig n P"
  shows "(length ds = n \<and> length (filter hasPrize ds) = P \<and> pick < n
            \<and> (\<forall>k<n. isSelected (ds ! k) = (k = pick))
          \<longrightarrow> hostOpenableDoors ds \<noteq> [] \<and> (\<exists>k<n. hostOpenIndex ds r = Some k))
       \<and> (length cd = n \<and> length (filter id cd) = P \<and> pc < n
          \<longrightarrow> hostOpenable n cd pc \<noteq> [] \<and> (\<exists>k<n. hostOpened n cd pc r' = Some k))"
proof (intro conjI impI)
  assume a: "length ds = n \<and> length (filter hasPrize ds) = P \<and> pick < n
            \<and> (\<forall>k<n. isSelected (ds ! k) = (k = pick))"
  then show "hostOpenableDoors ds \<noteq> []" "\<exists>k<n. hostOpenIndex ds r = Some k"
    using manual_host_can_open [OF assms] by blast+
next
  assume a: "length cd = n \<and> length (filter id cd) = P \<and> pc < n"
  then show "hostOpenable n cd pc \<noteq> []" "\<exists>k<n. hostOpened n cd pc r' = Some k"
    using batch_host_can_open [OF assms] by blast+
qed

theorem host_always_has_openable_door_witness:
  "validConfig 3 1
   \<and> length (doors examplePicked) = 3 \<and> length (filter hasPrize (doors examplePicked)) = 1
   \<and> (0::nat) < 3 \<and> isSelected (doors examplePicked ! 0)
   \<and> hostOpenableDoors (doors examplePicked) = [2]
   \<and> hostOpenIndex (doors examplePicked) 0 = Some 2
   \<and> length [False, True, False] = 3 \<and> length (filter id [False, True, False]) = 1
   \<and> hostOpenable 3 [False, True, False] 0 = [2]
   \<and> hostOpened 3 [False, True, False] 0 0 = Some 2"
  using host_always_has_openable_door
    [where n = 3 and P = 1 and ds = "doors examplePicked" and pick = 0 and r = 0
       and cd = "[False, True, False]" and pc = 0 and r' = 0]
  unfolding example_host_index example_batch_host
  by (simp add: validConfig_iff example_board_facts)

subsection \<open>The manual game\<close>

lemma findIndexFrom_update:
  "\<forall>x\<in>set xs. \<not> p x \<Longrightarrow> p y \<Longrightarrow> i < length xs \<Longrightarrow>
   findIndexFrom p (xs[i := y]) k = k + int i"
proof (induction xs arbitrary: i k)
  case Nil
  then show ?case by simp
next
  case (Cons x xs)
  then show ?case by (cases i) auto
qed

lemma findIndexFrom_cong:
  "map p xs = map p ys \<Longrightarrow> findIndexFrom p xs k = findIndexFrom p ys k"
proof (induction xs arbitrary: ys k)
  case Nil
  then show ?case by simp
next
  case (Cons x xs)
  then obtain y ys' where "ys = y # ys'" by (cases ys) auto
  with Cons show ?case by auto
qed

lemma map_isSelected_hostTimeout:
  "map isSelected (doors (hostTimeout g r)) = map isSelected (doors g)"
  by (rule nth_equalityI) (simp_all add: hostTimeout_def)

lemma map_hasPrize_hostTimeout:
  "map hasPrize (doors (hostTimeout g r)) = map hasPrize (doors g)"
  by (rule nth_equalityI) (simp_all add: hostTimeout_def)

lemma resetManualGame_fresh:
  assumes "resetManualGame n P g tape = Some (Inr (g0, rest))"
  shows "gameState g0 = Initial" and "\<forall>d\<in>set (doors g0). \<not> isSelected d \<and> \<not> isOpen d"
    and "manualStats g0 = manualStats g"
proof -
  from assms obtain ds where ds: "setupDoors n P tape = Some (Inr (ds, rest))"
    and g0: "g0 = g\<lparr>doors := ds, gameState := Initial, message := ChooseOneOf n\<rparr>"
    by (auto simp: resetManualGame_def split: option.splits sum.splits)
  from g0 show "gameState g0 = Initial" "manualStats g0 = manualStats g" by simp_all
  from ds have "setupDoorsLoop n P (replicate n closedDoor) 0 tape = Some (Inr (ds, rest))"
    by (simp add: setupDoors_returned)
  from setupDoorsLoop_flags [OF this] g0
  show "\<forall>d\<in>set (doors g0). \<not> isSelected d \<and> \<not> isOpen d" by (simp add: closedDoor_def)
qed

text \<open>The final click in any state \<open>Revealed\<close>, as the code computes it.\<close>

lemma final_click:
  assumes "gameState g = Revealed" and "i < length (doors g)" and "\<not> isOpen (doors g ! i)"
  shows "\<exists>g'. handleDoorClick g i = Inr g' \<and> gameState g' = Finished
     \<and> total (manualStats g') = total (manualStats g) + 1
     \<and> stayWins (manualStats g') = stayWins (manualStats g)
          + (if hasPrize (doors g ! i) \<and> int i = findIndex isSelected (doors g) then 1 else 0)
     \<and> switchWins (manualStats g') = switchWins (manualStats g)
          + (if hasPrize (doors g ! i) \<and> int i \<noteq> findIndex isSelected (doors g) then 1 else 0)"
  using assms by (simp add: handleDoorClick_def Let_def)

lemma play_to_revealed:
  assumes "gameState g0 = Initial" and "\<forall>d\<in>set (doors g0). \<not> isSelected d \<and> \<not> isOpen d"
    and "manualRun n P g0 [Click pick, HostTimer r] = Some (Inr g2)"
  shows "gameState g2 = Revealed" and "findIndex isSelected (doors g2) = int pick"
    and "manualStats g2 = manualStats g0" and "pick < length (doors g2)"
proof -
  let ?g1 = "g0\<lparr>doors := (doors g0)[pick := (doors g0 ! pick)\<lparr>isSelected := True\<rparr>],
                 gameState := Picked\<rparr>"
  from assms(1,3) have pick: "pick < length (doors g0)"
    by (auto simp: handleDoorClick_def split: if_splits)
  with assms(1) have c: "handleDoorClick g0 pick = Inr ?g1"
    by (simp add: handleDoorClick_def)
  with assms(3) have g2: "g2 = hostTimeout ?g1 r" by simp
  then show "gameState g2 = Revealed" "manualStats g2 = manualStats g0"
    by (simp_all add: hostTimeout_def)
  from g2 pick show "pick < length (doors g2)" by (simp add: hostTimeout_def)
  have "findIndex isSelected (doors g2) = findIndex isSelected (doors ?g1)"
    unfolding findIndex_def g2 by (rule findIndexFrom_cong) (rule map_isSelected_hostTimeout)
  also have "\<dots> = int pick"
    using assms(2) pick by (simp add: findIndex_def findIndexFrom_update)
  finally show "findIndex isSelected (doors g2) = int pick" .
qed

text \<open>
  Claim C8. In a game started by \<open>resetManualGame\<close>, after the first click on door
  \<open>pick\<close> and the host's move the state is \<open>Revealed\<close>, and every click there on a closed
  door is accepted, adds exactly 1 to \<open>total\<close>, adds 1 to \<open>stayWins\<close> and nothing to
  \<open>switchWins\<close> when the door has a prize and is the initial pick, adds 1 to \<open>switchWins\<close>
  and nothing to \<open>stayWins\<close> when it has a prize and is another door, and changes neither
  counter when the door has no prize.
\<close>

theorem finalize_counts_exactly_once:
  assumes "resetManualGame n P g tape = Some (Inr (g0, rest))"
    and "manualRun n P g0 [Click pick, HostTimer r] = Some (Inr g2)"
    and "clickedIndex < length (doors g2)" and "\<not> isOpen (doors g2 ! clickedIndex)"
  shows "gameState g2 = Revealed
     \<and> (\<exists>g3. handleDoorClick g2 clickedIndex = Inr g3 \<and> gameState g3 = Finished
          \<and> total (manualStats g3) = total (manualStats g2) + 1
          \<and> stayWins (manualStats g3) = stayWins (manualStats g2)
               + (if hasPrize (doors g2 ! clickedIndex) \<and> clickedIndex = pick then 1 else 0)
          \<and> switchWins (manualStats g3) = switchWins (manualStats g2)
               + (if hasPrize (doors g2 ! clickedIndex) \<and> clickedIndex \<noteq> pick then 1 else 0))"
proof -
  note fresh = resetManualGame_fresh [OF assms(1)]
  note rev = play_to_revealed [OF fresh(1,2) assms(2)]
  from final_click [OF rev(1) assms(3,4)] rev(1,2) show ?thesis by simp
qed

lemma example_reset: "resetManualGame 3 1 exampleFresh [1] = Some (Inr (exampleFresh, []))"
  by code_simp

lemma example_play: "manualRun 3 1 exampleFresh [Click 0, HostTimer 0] = Some (Inr exampleRevealed)"
  by code_simp

lemma example_mount: "mountManual 3 1 [0, 1] = Some (Inr (exampleFresh, []))"
  by code_simp

lemma example_last_step: "manualStep 3 1 exampleRevealed (Click 1) = Some (Inr exampleFinished)"
  by code_simp

lemma example_states:
  "gameState examplePicked = Picked" "gameState exampleRevealed = Revealed"
  "gameState exampleFinished = Finished" "length (doors exampleRevealed) = 3"
  "\<not> isOpen (doors exampleRevealed ! Suc 0)" "hasPrize (doors exampleRevealed ! Suc 0)"
  "manualStats exampleRevealed = \<lparr>stayWins = 0, switchWins = 0, total = 0\<rparr>"
  "manualStats exampleFinished = \<lparr>stayWins = 0, switchWins = 1, total = 1\<rparr>"
  by (simp_all add: examplePicked_def exampleRevealed_def exampleFinished_def closedDoor_def)

theorem finalize_counts_exactly_once_witness:
  "resetManualGame 3 1 exampleFresh [1] = Some (Inr (exampleFresh, []))
   \<and> manualRun 3 1 exampleFresh [Click 0, HostTimer 0] = Some (Inr exampleRevealed)
   \<and> 1 < length (doors exampleRevealed) \<and> \<not> isOpen (doors exampleRevealed ! 1)
   \<and> gameState exampleRevealed = Revealed
   \<and> handleDoorClick exampleRevealed 1 = Inr exampleFinished
   \<and> total (manualStats exampleFinished) = total (manualStats exampleRevealed) + 1
   \<and> stayWins (manualStats exampleFinished) = stayWins (manualStats exampleRevealed)
   \<and> switchWins (manualStats exampleFinished) = switchWins (manualStats exampleRevealed) + 1"
  using finalize_counts_exactly_once [OF example_reset example_play, of 1]
    example_reset example_play example_final_click
  by (simp add: example_states)

text \<open>
  Claim C9. A door click in state \<open>Picked\<close> or \<open>Finished\<close>, and a click in state
  \<open>Revealed\<close> on a door that is already open, returns normally and returns the state it
  was given: doors, game state, message and statistics are unchanged.
\<close>

theorem invalid_click_is_noop:
  "(gameState g = Picked \<or> gameState g = Finished \<longrightarrow> handleDoorClick g clickedIndex = Inr g)
   \<and> (gameState g = Revealed \<and> clickedIndex < length (doors g) \<and> isOpen (doors g ! clickedIndex)
        \<longrightarrow> handleDoorClick g clickedIndex = Inr g)"
  by (auto simp: handleDoorClick_def)

theorem invalid_click_is_noop_witness:
  "gameState examplePicked = Picked \<and> handleDoorClick examplePicked 1 = Inr examplePicked
   \<and> gameState exampleFinished = Finished \<and> handleDoorClick exampleFinished 0 = Inr exampleFinished
   \<and> gameState exampleRevealed = Revealed \<and> 2 < length (doors exampleRevealed)
   \<and> isOpen (doors exampleRevealed ! 2) \<and> handleDoorClick exampleRevealed 2 = Inr exampleRevealed"
  using invalid_click_is_noop [of examplePicked 1] invalid_click_is_noop [of exampleFinished 0]
    invalid_click_is_noop [of exampleRevealed 2]
  by (simp add: example_states example_facts)

lemma manualStep_stats:
  assumes "manualStep n P g e = Some (Inr g')"
  shows "manualStats g' = manualStats g
     \<or> (gameState g = Revealed \<and> (\<exists>i. e = Click i)
        \<and> total (manualStats g') = total (manualStats g) + 1
        \<and> stayWins (manualStats g) \<le> stayWins (manualStats g')
        \<and> switchWins (manualStats g) \<le> switchWins (manualStats g')
        \<and> stayWins (manualStats g') + switchWins (manualStats g')
            \<le> stayWins (manualStats g) + switchWins (manualStats g) + 1)"
proof (cases e)
  case (Click i)
  with assms show ?thesis
    by (cases "gameState g") (auto simp: handleDoorClick_def Let_def split: if_splits)
next
  case (HostTimer r)
  with assms show ?thesis by (auto simp: hostTimeout_def split: if_splits)
next
  case (NewGame t)
  with assms show ?thesis
    by (auto simp: resetManualGame_def split: if_splits option.splits sum.splits)
qed

lemma manualStep_others_keep_stats:
  assumes "manualStep n P g e = Some (Inr g')"
  shows "case e of Click i \<Rightarrow> True | HostTimer r \<Rightarrow> manualStats g' = manualStats g
         | NewGame t \<Rightarrow> manualStats g' = manualStats g"
  using assms
  by (cases e) (auto simp: hostTimeout_def resetManualGame_def
      split: if_splits option.splits sum.splits)

lemma manualStep_invariant:
  assumes "manualStep n P g e = Some (Inr g')"
    and "stayWins (manualStats g) + switchWins (manualStats g) \<le> total (manualStats g)"
  shows "stayWins (manualStats g') + switchWins (manualStats g') \<le> total (manualStats g')"
  using manualStep_stats [OF assms(1)] assms(2) by auto

lemma manualRun_invariant:
  "manualRun n P g es = Some (Inr g') \<Longrightarrow>
   stayWins (manualStats g) + switchWins (manualStats g) \<le> total (manualStats g) \<Longrightarrow>
   stayWins (manualStats g') + switchWins (manualStats g') \<le> total (manualStats g')"
proof (induction es arbitrary: g)
  case Nil
  then show ?case by simp
next
  case (Cons e es)
  from Cons.prems(1) obtain g1 where step: "manualStep n P g e = Some (Inr g1)"
    and run: "manualRun n P g1 es = Some (Inr g')"
    by (auto split: option.splits sum.splits)
  from Cons.IH [OF run manualStep_invariant [OF step Cons.prems(2)]] show ?case .
qed

lemma mountManual_stats:
  assumes "mountManual n P tape = Some (Inr (g0, rest))"
  shows "manualStats g0 = \<lparr>stayWins = 0, switchWins = 0, total = 0\<rparr>"
  using assms
  by (auto simp: mountManual_def split: option.splits sum.splits dest!: resetManualGame_fresh(3))

text \<open>
  Claim C10. In every state \<open>g\<close> that a mounted manual game reaches, and in the state
  \<open>g'\<close> after any further event, \<open>stayWins + switchWins \<le> total\<close>. An event either
  leaves the statistics as they are or is a click in state \<open>Revealed\<close> that adds 1 to
  \<open>total\<close> and at most 1 to the two win counters together, lowering neither; the host's
  timer and the reset never change the statistics.
\<close>

theorem manual_wins_never_exceed_total:
  assumes "mountManual n P tape = Some (Inr (g0, rest))"
    and "manualRun n P g0 events = Some (Inr g)"
    and "manualStep n P g e = Some (Inr g')"
  shows "stayWins (manualStats g) + switchWins (manualStats g) \<le> total (manualStats g)
     \<and> stayWins (manualStats g') + switchWins (manualStats g') \<le> total (manualStats g')
     \<and> (manualStats g' = manualStats g
        \<or> (gameState g = Revealed \<and> (\<exists>i. e = Click i)
           \<and> total (manualStats g') = total (manualStats g) + 1
           \<and> stayWins (manualStats g) \<le> stayWins (manualStats g')
           \<and> switchWins (manualStats g) \<le> switchWins (manualStats g')
           \<and> stayWins (manualStats g') + switchWins (manualStats g')
               \<le> stayWins (manualStats g) + switchWins (manualStats g) + 1))
     \<and> (case e of Click i \<Rightarrow> True | HostTimer r \<Rightarrow> manualStats g' = manualStats g
         | NewGame t \<Rightarrow> manualStats g' = manualStats g)"
proof -
  have "stayWins (manualStats g0) + switchWins (manualStats g0) \<le> total (manualStats g0)"
    using mountManual_stats [OF assms(1)] by simp
  from manualRun_invariant [OF assms(2) this]
  have inv: "stayWins (manualStats g) + switchWins (manualStats g) \<le> total (manualStats g)" .
  from inv manualStep_invariant [OF assms(3) inv] manualStep_stats [OF assms(3)]
    manualStep_others_keep_stats [OF assms(3)]
  show ?thesis by blast
qed

theorem manual_wins_never_exceed_total_witness:
  "mountManual 3 1 [0, 1] = Some (Inr (exampleFresh, []))
   \<and> manualRun 3 1 exampleFresh [Click 0, HostTimer 0] = Some (Inr exampleRevealed)
   \<and> manualStep 3 1 exampleRevealed (Click 1) = Some (Inr exampleFinished)
   \<and> stayWins (manualStats exampleFinished) + switchWins (manualStats exampleFinished)
       \<le> total (manualStats exampleFinished)
   \<and> total (manualStats exampleFinished) = total (manualStats exampleRevealed) + 1"
  using manual_wins_never_exceed_total [OF example_mount example_play example_last_step]
    example_mount example_play example_last_step
  by (simp add: example_states)

subsection \<open>Configuration\<close>

lemma sign_not_whiteSpace: "\<not> isWhiteSpace 43" "\<not> isWhiteSpace 45"
  by (simp_all add: isWhiteSpace_def)

lemma digit_not_whiteSpace: "isDigit c \<Longrightarrow> \<not> isWhiteSpace c"
  by (auto simp: isDigit_def isWhiteSpace_def)

lemma digit_not_sign: "isDigit c \<Longrightarrow> c \<noteq> 43 \<and> c \<noteq> 45"
  by (auto simp: isDigit_def)

lemma dropWhile_whiteSpace:
  assumes "\<forall>c\<in>set ws. isWhiteSpace c" and "xs = [] \<or> \<not> isWhiteSpace (hd xs)"
  shows "dropWhile isWhiteSpace (ws @ xs) = xs"
proof (cases xs)
  case Nil
  with assms(1) show ?thesis by simp
next
  case (Cons x xs')
  with assms show ?thesis by (simp add: dropWhile_append3)
qed

lemma takeWhile_digits:
  assumes "\<forall>c\<in>set ds. isDigit c" and "rest = [] \<or> \<not> isDigit (hd rest)"
  shows "takeWhile isDigit (ds @ rest) = ds"
proof (cases rest)
  case Nil
  with assms(1) show ?thesis by simp
next
  case (Cons x xs')
  with assms show ?thesis by (simp add: takeWhile_append2)
qed

text \<open>What \<open>parseInt\<close> reads from a text that starts with an integer.\<close>

lemma parseInt_integer_prefix:
  assumes ws: "\<forall>c\<in>set ws. isWhiteSpace c"
    and sign: "sign \<in> {[], [43], [45]}"
    and ds: "ds \<noteq> []" "\<forall>c\<in>set ds. isDigit c"
    and rest: "rest = [] \<or> \<not> isDigit (hd rest)"
  shows "parseInt (ws @ sign @ ds @ rest)
           = toNumber ((if sign = [45] then - 1 else 1) * digitsValue ds)"
proof -
  from ds obtain d ds' where dsc: "ds = d # ds'" by (cases ds) auto
  with ds(2) have d: "isDigit d" by simp
  have "(sign @ ds @ rest) = [] \<or> \<not> isWhiteSpace (hd (sign @ ds @ rest))"
    using sign d dsc by (auto simp: sign_not_whiteSpace digit_not_whiteSpace)
  from dropWhile_whiteSpace [OF ws this]
  have S: "dropWhile isWhiteSpace (ws @ sign @ ds @ rest) = sign @ ds @ rest" .
  note Z = takeWhile_digits [OF ds(2) rest]
  from sign consider "sign = []" | "sign = [43]" | "sign = [45]" by auto
  then show ?thesis
  proof cases
    case 1
    with S Z dsc d digit_not_sign [OF d] show ?thesis
      by (simp add: parseInt_def Let_def)
  next
    case 2
    with S Z dsc show ?thesis by (simp add: parseInt_def Let_def)
  next
    case 3
    with S Z dsc show ?thesis by (simp add: parseInt_def Let_def)
  qed
qed

text \<open>The texts in which \<open>parseInt\<close> finds no integer.\<close>

lemma parseInt_NaN_iff:
  "(parseInt text = NaN) =
     (\<not> (\<exists>ws sign ds rest. text = ws @ sign @ ds @ rest \<and> (\<forall>c\<in>set ws. isWhiteSpace c)
            \<and> sign \<in> {[], [43], [45]} \<and> ds \<noteq> [] \<and> (\<forall>c\<in>set ds. isDigit c)))"
proof
  assume nan: "parseInt text = NaN"
  show "\<not> (\<exists>ws sign ds rest. text = ws @ sign @ ds @ rest \<and> (\<forall>c\<in>set ws. isWhiteSpace c)
            \<and> sign \<in> {[], [43], [45]} \<and> ds \<noteq> [] \<and> (\<forall>c\<in>set ds. isDigit c))"
  proof
    assume "\<exists>ws sign ds rest. text = ws @ sign @ ds @ rest \<and> (\<forall>c\<in>set ws. isWhiteSpace c)
            \<and> sign \<in> {[], [43], [45]} \<and> ds \<noteq> [] \<and> (\<forall>c\<in>set ds. isDigit c)"
    then obtain ws sign ds rest where t: "text = ws @ sign @ ds @ rest"
      and ws: "\<forall>c\<in>set ws. isWhiteSpace c" and sign: "sign \<in> {[], [43], [45]}"
      and ds: "ds \<noteq> []" "\<forall>c\<in>set ds. isDigit c" by blast
    define ds' where "ds' = ds @ takeWhile isDigit rest"
    define rest' where "rest' = dropWhile isDigit rest"
    have t': "text = ws @ sign @ ds' @ rest'" by (simp add: t ds'_def rest'_def)
    have a: "ds' \<noteq> []" using ds(1) by (simp add: ds'_def)
    have b: "\<forall>c\<in>set ds'. isDigit c" using ds(2) by (auto simp: ds'_def dest: set_takeWhileD)
    have c: "rest' = [] \<or> \<not> isDigit (hd rest')"
      unfolding rest'_def using hd_dropWhile [of isDigit rest] by blast
    from parseInt_integer_prefix [OF ws sign a b c] t' nan toNumber_not_NaN
    show False by metis
  qed
next
  assume none: "\<not> (\<exists>ws sign ds rest. text = ws @ sign @ ds @ rest \<and> (\<forall>c\<in>set ws. isWhiteSpace c)
            \<and> sign \<in> {[], [43], [45]} \<and> ds \<noteq> [] \<and> (\<forall>c\<in>set ds. isDigit c))"
  define ws where "ws = takeWhile isWhiteSpace text"
  define S where "S = dropWhile isWhiteSpace text"
  define sign where "sign = (if S \<noteq> [] \<and> (hd S = 43 \<or> hd S = 45) then [hd S] else [])"
  define S' where "S' = (if S \<noteq> [] \<and> (hd S = 43 \<or> hd S = 45) then tl S else S)"
  define Z where "Z = takeWhile isDigit S'"
  have "text = ws @ S" by (simp add: ws_def S_def)
  moreover have "S = sign @ S'" by (cases S) (auto simp: sign_def S'_def)
  moreover have "S' = Z @ dropWhile isDigit S'" by (simp add: Z_def)
  ultimately have t: "text = ws @ sign @ Z @ dropWhile isDigit S'" by simp
  have "\<forall>c\<in>set ws. isWhiteSpace c" by (auto simp: ws_def dest: set_takeWhileD)
  moreover have "sign \<in> {[], [43], [45]}" by (auto simp: sign_def)
  moreover have "\<forall>c\<in>set Z. isDigit c" by (auto simp: Z_def dest: set_takeWhileD)
  ultimately have Z: "Z = []" using none t by blast
  have "parseInt text =
          (if Z = [] then NaN
           else toNumber (if S \<noteq> [] \<and> hd S = 45 then - digitsValue Z else digitsValue Z))"
    unfolding parseInt_def Let_def Z_def S'_def S_def by (rule refl)
  also have "\<dots> = NaN" by (simp only: Z if_True refl)
  finally show "parseInt text = NaN" .
qed

lemma validate_order:
  "(validate doorCount prizeCount = Some NotANumber) = (doorCount = NaN \<or> prizeCount = NaN)"
  "(validate doorCount prizeCount = Some TooFewDoors)
     = (doorCount \<noteq> NaN \<and> prizeCount \<noteq> NaN \<and> jsLess doorCount (Finite 3))"
  "(validate doorCount prizeCount = Some TooFewPrizes)
     = (doorCount \<noteq> NaN \<and> prizeCount \<noteq> NaN \<and> \<not> jsLess doorCount (Finite 3)
        \<and> jsLess prizeCount (Finite 1))"
  "(validate doorCount prizeCount = Some TooManyPrizes)
     = (doorCount \<noteq> NaN \<and> prizeCount \<noteq> NaN \<and> \<not> jsLess doorCount (Finite 3)
        \<and> \<not> jsLess prizeCount (Finite 1) \<and> jsGreaterEq prizeCount doorCount)"
  "(validate doorCount prizeCount = Some InsufficientSwitchChoice)
     = (doorCount \<noteq> NaN \<and> prizeCount \<noteq> NaN \<and> \<not> jsLess doorCount (Finite 3)
        \<and> \<not> jsLess prizeCount (Finite 1) \<and> \<not> jsGreaterEq prizeCount doorCount
        \<and> jsLess (jsMinus doorCount prizeCount) (Finite 2))"
  "(validate doorCount prizeCount = None)
     = (doorCount \<noteq> NaN \<and> prizeCount \<noteq> NaN \<and> \<not> jsLess doorCount (Finite 3)
        \<and> \<not> jsLess prizeCount (Finite 1) \<and> \<not> jsGreaterEq prizeCount doorCount
        \<and> \<not> jsLess (jsMinus doorCount prizeCount) (Finite 2))"
  by (auto simp: validate_def isNaN_def)

lemma validate_Finite_order:
  "(validate (Finite d) (Finite p) = Some TooFewDoors) = (d < 3)"
  "(validate (Finite d) (Finite p) = Some TooFewPrizes) = (3 \<le> d \<and> p < 1)"
  "(validate (Finite d) (Finite p) = Some TooManyPrizes) = (3 \<le> d \<and> 1 \<le> p \<and> d \<le> p)"
  "(validate (Finite d) (Finite p) = Some InsufficientSwitchChoice)
     = (3 \<le> d \<and> 1 \<le> p \<and> p < d \<and> d - p < 2)"
  "(validate (Finite d) (Finite p) = None) = (3 \<le> d \<and> 1 \<le> p \<and> p < d \<and> 2 \<le> d - p)"
  by (auto simp: validate_Finite)

lemma handleApplyConfig_result:
  "error (handleApplyConfig app) = validate (parseInt (tempDoors app)) (parseInt (tempPrizes app))"
  "config (handleApplyConfig app)
     = (if validate (parseInt (tempDoors app)) (parseInt (tempPrizes app)) = None
        then \<lparr>numberOfDoors = parseInt (tempDoors app), numberOfPrizes = parseInt (tempPrizes app)\<rparr>
        else config app)"
  by (simp_all add: handleApplyConfig_def Let_def split: option.split)

lemma example_parse:
  "parseInt (ascii ''3'') = Finite 3" "parseInt (ascii ''1'') = Finite 1"
  "parseInt (ascii ''2'') = Finite 2" "parseInt (ascii ''7.9'') = Finite 7"
  "parseInt (ascii '' +12abc'') = Finite 12" "parseInt (ascii ''abc'') = NaN"
  "parseInt (ascii ''9007199254740993'') = Finite 9007199254740992"
  "parseInt (ascii ''9007199254740991'') = Finite 9007199254740991"
  by code_simp+

text \<open>
  Claim C6, as stated, fails: the input \<open>7.9\<close> is not an integer, and with one prize it
  does not yield \<open>NotANumber\<close>; it is read as 7 and the configuration is accepted.
\<close>

theorem non_integer_input_accepted_counterexample:
  "parseInt (ascii ''7.9'') = Finite 7
   \<and> error (handleApplyConfig (initialApp\<lparr>tempDoors := ascii ''7.9'', tempPrizes := ascii ''1''\<rparr>))
       = None
   \<and> config (handleApplyConfig (initialApp\<lparr>tempDoors := ascii ''7.9'', tempPrizes := ascii ''1''\<rparr>))
       = \<lparr>numberOfDoors = Finite 7, numberOfPrizes = Finite 1\<rparr>"
  by (simp add: handleApplyConfig_result example_parse validate_Finite)

text \<open>
  Claim C6, as amended. \<open>handleApplyConfig\<close> reads each input with \<open>parseInt\<close>: after
  leading white space and an optional sign, the longest run of decimal digits is read
  as an integer, rounded to a double, and the rest of the text is ignored; the texts
  that have no digit in that place are exactly those that give \<^verbatim>\<open>NaN\<close>. On the two
  numbers \<open>validate\<close> checks its five rules in order and the first failure wins:
  \<open>NotANumber\<close> exactly when one of them is \<^verbatim>\<open>NaN\<close>; otherwise \<open>TooFewDoors\<close> exactly
  when \<open>doorCount < 3\<close>; \<open>TooFewPrizes\<close> exactly when that passes and \<open>prizeCount < 1\<close>;
  \<open>TooManyPrizes\<close> exactly when those pass and \<open>prizeCount \<ge> doorCount\<close>;
  \<open>InsufficientSwitchChoice\<close> exactly when those pass and \<open>doorCount - prizeCount < 2\<close>;
  success exactly when all five pass. \<open>handleApplyConfig\<close> stores that result and
  replaces the configuration only on success. The inputs 3 and 1 validate; 3 and 2 fail
  with \<open>InsufficientSwitchChoice\<close>.
\<close>

theorem validation_checks_parsed_numbers_in_order:
  "error (handleApplyConfig app) = validate (parseInt (tempDoors app)) (parseInt (tempPrizes app))
   \<and> config (handleApplyConfig app)
        = (if validate (parseInt (tempDoors app)) (parseInt (tempPrizes app)) = None
           then \<lparr>numberOfDoors = parseInt (tempDoors app),
                 numberOfPrizes = parseInt (tempPrizes app)\<rparr>
           else config app)
   \<and> (parseInt text = NaN)
        = (\<not> (\<exists>ws sign ds rest. text = ws @ sign @ ds @ rest \<and> (\<forall>c\<in>set ws. isWhiteSpace c)
                 \<and> sign \<in> {[], [43], [45]} \<and> ds \<noteq> [] \<and> (\<forall>c\<in>set ds. isDigit c)))
   \<and> ((\<forall>c\<in>set ws. isWhiteSpace c) \<and> sign \<in> {[], [43], [45]} \<and> ds \<noteq> []
        \<and> (\<forall>c\<in>set ds. isDigit c) \<and> (rest = [] \<or> \<not> isDigit (hd rest))
       \<longrightarrow> parseInt (ws @ sign @ ds @ rest)
             = toNumber ((if sign = [45] then - 1 else 1) * digitsValue ds))
   \<and> (validate doorCount prizeCount = Some NotANumber) = (doorCount = NaN \<or> prizeCount = NaN)
   \<and> (validate doorCount prizeCount = Some TooFewDoors)
        = (doorCount \<noteq> NaN \<and> prizeCount \<noteq> NaN \<and> jsLess doorCount (Finite 3))
   \<and> (validate doorCount prizeCount = Some TooFewPrizes)
        = (doorCount \<noteq> NaN \<and> prizeCount \<noteq> NaN \<and> \<not> jsLess doorCount (Finite 3)
           \<and> jsLess prizeCount (Finite 1))
   \<and> (validate doorCount prizeCount = Some TooManyPrizes)
        = (doorCount \<noteq> NaN \<and> prizeCount \<noteq> NaN \<and> \<not> jsLess doorCount (Finite 3)
           \<and> \<not> jsLess prizeCount (Finite 1) \<and> jsGreaterEq prizeCount doorCount)
   \<and> (validate doorCount prizeCount = Some InsufficientSwitchChoice)
        = (doorCount \<noteq> NaN \<and> prizeCount \<noteq> NaN \<and> \<not> jsLess doorCount (Finite 3)
           \<and> \<not> jsLess prizeCount (Finite 1) \<and> \<not> jsGreaterEq prizeCount doorCount
           \<and> jsLess (jsMinus doorCount prizeCount) (Finite 2))
   \<and> (validate doorCount prizeCount = None)
        = (doorCount \<noteq> NaN \<and> prizeCount \<noteq> NaN \<and> \<not> jsLess doorCount (Finite 3)
           \<and> \<not> jsLess prizeCount (Finite 1) \<and> \<not> jsGreaterEq prizeCount doorCount
           \<and> \<not> jsLess (jsMinus doorCount prizeCount) (Finite 2))
   \<and> (validate (Finite d) (Finite p) = Some TooFewDoors) = (d < 3)
   \<and> (validate (Finite d) (Finite p) = Some TooFewPrizes) = (3 \<le> d \<and> p < 1)
   \<and> (validate (Finite d) (Finite p) = Some TooManyPrizes) = (3 \<le> d \<and> 1 \<le> p \<and> d \<le> p)
   \<and> (validate (Finite d) (Finite p) = Some InsufficientSwitchChoice)
        = (3 \<le> d \<and> 1 \<le> p \<and> p < d \<and> d - p < 2)
   \<and> (validate (Finite d) (Finite p) = None) = (3 \<le> d \<and> 1 \<le> p \<and> p < d \<and> 2 \<le> d - p)
   \<and> validate (parseInt (ascii ''3'')) (parseInt (ascii ''1'')) = None
   \<and> validate (parseInt (ascii ''3'')) (parseInt (ascii ''2'')) = Some InsufficientSwitchChoice"
proof -
  have prefix_value: "(\<forall>c\<in>set ws. isWhiteSpace c) \<and> sign \<in> {[], [43], [45]} \<and> ds \<noteq> []
        \<and> (\<forall>c\<in>set ds. isDigit c) \<and> (rest = [] \<or> \<not> isDigit (hd rest))
       \<longrightarrow> parseInt (ws @ sign @ ds @ rest)
             = toNumber ((if sign = [45] then - 1 else 1) * digitsValue ds)"
    using parseInt_integer_prefix [of ws sign ds rest] by blast
  have bounds: "validate (parseInt (ascii ''3'')) (parseInt (ascii ''1'')) = None"
    "validate (parseInt (ascii ''3'')) (parseInt (ascii ''2'')) = Some InsufficientSwitchChoice"
    by (simp_all add: example_parse validate_Finite)
  show ?thesis
    by (intro conjI handleApplyConfig_result parseInt_NaN_iff prefix_value validate_order
        validate_Finite_order bounds)
qed

lemma example_prefix_text:
  "\<forall>c\<in>set [32]. isWhiteSpace c" "\<forall>c\<in>set (ascii ''12''). isDigit c"
  "\<not> isDigit (hd (ascii ''abc''))" "ascii ''12'' \<noteq> []"
  "ascii '' +12abc'' = [32] @ [43] @ ascii ''12'' @ ascii ''abc''"
  "digitsValue (ascii ''12'') = 12" "toNumber 12 = Finite 12"
  "list_all isWhiteSpace [32]" "list_all isDigit (ascii ''12'')"
  by code_simp+

theorem validation_checks_parsed_numbers_in_order_witness:
  "list_all isWhiteSpace [32] \<and> [43] \<in> {[], [43], [45::int]} \<and> ascii ''12'' \<noteq> []
   \<and> list_all isDigit (ascii ''12'') \<and> \<not> isDigit (hd (ascii ''abc''))
   \<and> parseInt ([32] @ [43] @ ascii ''12'' @ ascii ''abc'') = Finite 12
   \<and> parseInt (ascii ''abc'') = NaN
   \<and> error (handleApplyConfig (initialApp\<lparr>tempDoors := ascii ''abc''\<rparr>)) = Some NotANumber
   \<and> error (handleApplyConfig (initialApp\<lparr>tempDoors := ascii ''3'', tempPrizes := ascii ''2''\<rparr>))
       = Some InsufficientSwitchChoice
   \<and> validate (Finite 2) (Finite 0) = Some TooFewDoors
   \<and> validate (Finite 3) (Finite 0) = Some TooFewPrizes
   \<and> validate (Finite 3) (Finite 3) = Some TooManyPrizes
   \<and> validate (parseInt (ascii ''9007199254740993'')) (parseInt (ascii ''9007199254740991''))
       = Some InsufficientSwitchChoice"
proof -
  note claim = validation_checks_parsed_numbers_in_order
  from claim [where ws = "[32]" and sign = "[43]" and ds = "ascii ''12''" and rest = "ascii ''abc''"]
  have "(\<forall>c\<in>set [32]. isWhiteSpace c) \<and> [43] \<in> {[], [43], [45::int]} \<and> ascii ''12'' \<noteq> []
        \<and> (\<forall>c\<in>set (ascii ''12''). isDigit c) \<and> (ascii ''abc'' = [] \<or> \<not> isDigit (hd (ascii ''abc'')))
       \<longrightarrow> parseInt ([32] @ [43] @ ascii ''12'' @ ascii ''abc'')
             = toNumber ((if [43] = [45::int] then - 1 else 1) * digitsValue (ascii ''12''))"
    by blast
  then have v: "parseInt ([32] @ [43] @ ascii ''12'' @ ascii ''abc'') = Finite 12"
    by (simp add: example_prefix_text)
  from claim [where app = "initialApp\<lparr>tempDoors := ascii ''abc''\<rparr>"]
  have e1: "error (handleApplyConfig (initialApp\<lparr>tempDoors := ascii ''abc''\<rparr>)) = Some NotANumber"
    by (simp add: example_parse initialApp_def validate_def isNaN_def)
  from claim [where app = "initialApp\<lparr>tempDoors := ascii ''3'', tempPrizes := ascii ''2''\<rparr>"]
  have e2: "error (handleApplyConfig (initialApp\<lparr>tempDoors := ascii ''3'', tempPrizes := ascii ''2''\<rparr>))
       = Some InsufficientSwitchChoice"
    by (simp add: example_parse validate_Finite)
  from claim [where d = 2 and p = 0] have f1: "validate (Finite 2) (Finite 0) = Some TooFewDoors"
    by simp
  from claim [where d = 3 and p = 0] have f2: "validate (Finite 3) (Finite 0) = Some TooFewPrizes"
    by simp
  from claim [where d = 3 and p = 3] have f3: "validate (Finite 3) (Finite 3) = Some TooManyPrizes"
    by simp
  from claim [where d = 9007199254740992 and p = 9007199254740991]
  have f4: "validate (parseInt (ascii ''9007199254740993'')) (parseInt (ascii ''9007199254740991''))
       = Some InsufficientSwitchChoice"
    by (simp add: example_parse)
  from v e1 e2 f1 f2 f3 f4 show ?thesis
    by (simp add: example_prefix_text example_parse)
qed

subsection \<open>The batch simulator\<close>

lemma publishTrial_stats:
  "stayStats (publishTrial sims delay stop i cd pc lsw lsww st) = \<lparr>wins = lsw, losses = int i - lsw\<rparr>"
  "switchStats (publishTrial sims delay stop i cd pc lsw lsww st) = \<lparr>wins = lsww, losses = int i - lsww\<rparr>"
  by (simp_all add: publishTrial_def Let_def handleStopSimulation_def)

lemma publishTrial_stopped:
  "simulationStopped (publishTrial sims delay stop i cd pc lsw lsww st) =
     (simulationStopped st \<or> (atInterval i sims 100 \<and> 0 < delay \<and> stop i = StopClick))"
  by (auto simp: publishTrial_def Let_def handleStopSimulation_def)

lemma publishTrial_progress:
  "atInterval i sims 100 \<Longrightarrow>
   progress (publishTrial sims delay stop i cd pc lsw lsww st) = doublePercent i sims"
  by (simp add: publishTrial_def Let_def handleStopSimulation_def)

text \<open>What the loop returns, in terms of the observations \<open>new\<close> it adds.\<close>

lemma simulationLoop_observations:
  "simulationLoop n P sims delay stop todo lsw lsww st tape seen = Some (st', seen', rest) \<Longrightarrow>
   \<not> simulationStopped st \<Longrightarrow>
   \<exists>new lsw' lsww'. seen' = seen @ new \<and> length new \<le> length todo
     \<and> st' = (if new = [] then st else last new)
     \<and> runTrials n P (length new) lsw lsww tape = Some (lsw', lsww', rest)
     \<and> (\<forall>j<length new.
           stayStats (new ! j) = \<lparr>wins = wins (stayStats (new ! j)),
                                    losses = int (todo ! j) - wins (stayStats (new ! j))\<rparr>
         \<and> switchStats (new ! j) = \<lparr>wins = wins (switchStats (new ! j)),
                                    losses = int (todo ! j) - wins (switchStats (new ! j))\<rparr>)
     \<and> (new \<noteq> [] \<longrightarrow> wins (stayStats st') = lsw' \<and> wins (switchStats st') = lsww')
     \<and> (simulationStopped st' \<longrightarrow> new \<noteq> [] \<and> 0 < delay \<and> stop (todo ! (length new - 1)) = StopClick
           \<and> atInterval (todo ! (length new - 1)) sims 100
           \<and> progress st' = doublePercent (todo ! (length new - 1)) sims)
     \<and> (length new < length todo \<longrightarrow> simulationStopped st')"
proof (induction todo arbitrary: lsw lsww st tape seen)
  case Nil
  then show ?case by auto
next
  case (Cons i todo)
  from Cons.prems(2) have ns: "\<not> simulationStopped st" .
  with Cons.prems(1) obtain cd pc lsw1 lsww1 tape1 where
    trial: "runTrial n P lsw lsww tape = Some (cd, pc, lsw1, lsww1, tape1)"
    by (auto split: option.splits)
  define st1 where "st1 = publishTrial sims delay stop i cd pc lsw1 lsww1 st"
  from Cons.prems(1) ns trial
  have loop: "simulationLoop n P sims delay stop todo lsw1 lsww1 st1 tape1 (seen @ [st1])
               = Some (st', seen', rest)"
    by (simp add: st1_def Let_def split: if_splits)
  show ?case
  proof (cases "simulationStopped st1")
    case True
    with loop have res: "st' = st1" "seen' = seen @ [st1]" "rest = tape1"
      by (cases todo; simp)+
    from True have stopped: "atInterval i sims 100 \<and> 0 < delay \<and> stop i = StopClick"
      using ns by (simp add: st1_def publishTrial_stopped)
    have "seen' = seen @ [st1] \<and> length [st1] \<le> length (i # todo)
       \<and> st' = (if [st1] = [] then st else last [st1])
       \<and> runTrials n P (length [st1]) lsw lsww tape = Some (lsw1, lsww1, rest)
       \<and> (\<forall>j<length [st1].
           stayStats ([st1] ! j) = \<lparr>wins = wins (stayStats ([st1] ! j)),
                                    losses = int ((i # todo) ! j) - wins (stayStats ([st1] ! j))\<rparr>
         \<and> switchStats ([st1] ! j) = \<lparr>wins = wins (switchStats ([st1] ! j)),
                                    losses = int ((i # todo) ! j) - wins (switchStats ([st1] ! j))\<rparr>)
       \<and> ([st1] \<noteq> [] \<longrightarrow> wins (stayStats st') = lsw1 \<and> wins (switchStats st') = lsww1)
       \<and> (simulationStopped st' \<longrightarrow> [st1] \<noteq> [] \<and> 0 < delay \<and> stop ((i # todo) ! (length [st1] - 1)) = StopClick
           \<and> atInterval ((i # todo) ! (length [st1] - 1)) sims 100
           \<and> progress st' = doublePercent ((i # todo) ! (length [st1] - 1)) sims)
       \<and> (length [st1] < length (i # todo) \<longrightarrow> simulationStopped st')"
      using res trial stopped True
      by (simp add: st1_def publishTrial_stats publishTrial_progress)
    then show ?thesis by blast
  next
    case False
    from Cons.IH [OF loop this]
    obtain new lsw' lsww' where
      a: "seen' = (seen @ [st1]) @ new" and b: "length new \<le> length todo"
      and c: "st' = (if new = [] then st1 else last new)"
      and d: "runTrials n P (length new) lsw1 lsww1 tape1 = Some (lsw', lsww', rest)"
      and e: "\<forall>j<length new.
           stayStats (new ! j) = \<lparr>wins = wins (stayStats (new ! j)),
                                    losses = int (todo ! j) - wins (stayStats (new ! j))\<rparr>
         \<and> switchStats (new ! j) = \<lparr>wins = wins (switchStats (new ! j)),
                                    losses = int (todo ! j) - wins (switchStats (new ! j))\<rparr>"
      and f: "new \<noteq> [] \<longrightarrow> wins (stayStats st') = lsw' \<and> wins (switchStats st') = lsww'"
      and g: "simulationStopped st' \<longrightarrow> new \<noteq> [] \<and> 0 < delay \<and> stop (todo ! (length new - 1)) = StopClick
           \<and> atInterval (todo ! (length new - 1)) sims 100
           \<and> progress st' = doublePercent (todo ! (length new - 1)) sims"
      and h: "length new < length todo \<longrightarrow> simulationStopped st'"
      by blast
    let ?new = "st1 # new"
    have 1: "seen' = seen @ ?new" using a by simp
    have 2: "length ?new \<le> length (i # todo)" using b by simp
    have 3: "st' = (if ?new = [] then st else last ?new)" using c by simp
    have 4: "runTrials n P (length ?new) lsw lsww tape = Some (lsw', lsww', rest)"
      using trial d by simp
    have 5: "\<forall>j<length ?new.
           stayStats (?new ! j) = \<lparr>wins = wins (stayStats (?new ! j)),
                                    losses = int ((i # todo) ! j) - wins (stayStats (?new ! j))\<rparr>
         \<and> switchStats (?new ! j) = \<lparr>wins = wins (switchStats (?new ! j)),
                                    losses = int ((i # todo) ! j) - wins (switchStats (?new ! j))\<rparr>"
    proof (intro allI impI)
      fix j assume "j < length ?new"
      show "stayStats (?new ! j) = \<lparr>wins = wins (stayStats (?new ! j)),
                                    losses = int ((i # todo) ! j) - wins (stayStats (?new ! j))\<rparr>
         \<and> switchStats (?new ! j) = \<lparr>wins = wins (switchStats (?new ! j)),
                                    losses = int ((i # todo) ! j) - wins (switchStats (?new ! j))\<rparr>"
      proof (cases j)
        case 0
        then show ?thesis by (simp add: st1_def publishTrial_stats)
      next
        case (Suc j')
        with \<open>j < length ?new\<close> e show ?thesis by simp
      qed
    qed
    have 6: "?new \<noteq> [] \<longrightarrow> wins (stayStats st') = lsw' \<and> wins (switchStats st') = lsww'"
    proof (cases "new = []")
      case True
      with c d show ?thesis by (simp add: st1_def publishTrial_stats)
    next
      case False
      with f show ?thesis by simp
    qed
    have 7: "simulationStopped st' \<longrightarrow> ?new \<noteq> [] \<and> 0 < delay \<and> stop ((i # todo) ! (length ?new - 1)) = StopClick
           \<and> atInterval ((i # todo) ! (length ?new - 1)) sims 100
           \<and> progress st' = doublePercent ((i # todo) ! (length ?new - 1)) sims"
    proof (cases "new = []")
      case True
      with c have "st' = st1" by simp
      with \<open>\<not> simulationStopped st1\<close> show ?thesis by simp
    next
      case False
      then obtain x xs where "new = x # xs" by (cases new) auto
      with g show ?thesis by auto
    qed
    have 8: "length ?new < length (i # todo) \<longrightarrow> simulationStopped st'" using h by simp
    from 1 2 3 4 5 6 7 8 show ?thesis by blast
  qed
qed

lemma runSimulation_loop:
  assumes "runSimulation n P sims speed stop st tape = Some (final, seen, rest)"
  shows "\<exists>new lsw' lsww' st'. seen = new \<and> length new \<le> sims
     \<and> final = st'\<lparr>progress := 100, isSimulating := False\<rparr>
     \<and> (new = [] \<longrightarrow> stayStats st' = \<lparr>wins = 0, losses = 0\<rparr>
                      \<and> switchStats st' = \<lparr>wins = 0, losses = 0\<rparr> \<and> \<not> simulationStopped st')
     \<and> (new \<noteq> [] \<longrightarrow> st' = last new)
     \<and> runTrials n P (length new) 0 0 tape = Some (lsw', lsww', rest)
     \<and> (\<forall>j<length new.
           stayStats (new ! j) = \<lparr>wins = wins (stayStats (new ! j)),
                                    losses = int (j + 1) - wins (stayStats (new ! j))\<rparr>
         \<and> switchStats (new ! j) = \<lparr>wins = wins (switchStats (new ! j)),
                                    losses = int (j + 1) - wins (switchStats (new ! j))\<rparr>)
     \<and> (new \<noteq> [] \<longrightarrow> wins (stayStats st') = lsw' \<and> wins (switchStats st') = lsww')
     \<and> (simulationStopped st' \<longrightarrow> new \<noteq> [] \<and> speed < 100 \<and> stop (length new) = StopClick
           \<and> atInterval (length new) sims 100
           \<and> progress st' = doublePercent (length new) sims)
     \<and> (length new < sims \<longrightarrow> simulationStopped st')"
proof -
  define st0 where "st0 = startSimulation st"
  define delay where "delay = max 0 (100 - speed)"
  let ?todo = "[1..<sims + 1]"
  from assms obtain st' where
    loop: "simulationLoop n P sims delay stop ?todo 0 0 st0 tape [] = Some (st', seen, rest)"
    and final: "final = st'\<lparr>progress := 100, isSimulating := False\<rparr>"
    by (auto simp: runSimulation_def Let_def st0_def delay_def split: option.splits)
  have ns: "\<not> simulationStopped st0" by (simp add: st0_def startSimulation_def)
  from simulationLoop_observations [OF loop ns]
  obtain new lsw' lsww' where
    a: "seen = [] @ new" and b: "length new \<le> length ?todo"
    and c: "st' = (if new = [] then st0 else last new)"
    and d: "runTrials n P (length new) 0 0 tape = Some (lsw', lsww', rest)"
    and e: "\<forall>j<length new.
           stayStats (new ! j) = \<lparr>wins = wins (stayStats (new ! j)),
                                    losses = int (?todo ! j) - wins (stayStats (new ! j))\<rparr>
         \<and> switchStats (new ! j) = \<lparr>wins = wins (switchStats (new ! j)),
                                    losses = int (?todo ! j) - wins (switchStats (new ! j))\<rparr>"
    and f: "new \<noteq> [] \<longrightarrow> wins (stayStats st') = lsw' \<and> wins (switchStats st') = lsww'"
    and g: "simulationStopped st' \<longrightarrow> new \<noteq> [] \<and> 0 < delay \<and> stop (?todo ! (length new - 1)) = StopClick
           \<and> atInterval (?todo ! (length new - 1)) sims 100
           \<and> progress st' = doublePercent (?todo ! (length new - 1)) sims"
    and h: "length new < length ?todo \<longrightarrow> simulationStopped st'"
    by blast
  have len: "length ?todo = sims" by (simp del: upt_Suc)
  have nth: "\<And>j. j < length new \<Longrightarrow> ?todo ! j = j + 1"
  proof -
    fix j assume "j < length new"
    with b len have "1 + j < sims + 1" by linarith
    then have "?todo ! j = 1 + j" by (rule nth_upt)
    then show "?todo ! j = j + 1" by (simp del: upt_Suc)
  qed
  have e': "\<forall>j<length new.
           stayStats (new ! j) = \<lparr>wins = wins (stayStats (new ! j)),
                                    losses = int (j + 1) - wins (stayStats (new ! j))\<rparr>
         \<and> switchStats (new ! j) = \<lparr>wins = wins (switchStats (new ! j)),
                                    losses = int (j + 1) - wins (switchStats (new ! j))\<rparr>"
    using e nth by (simp del: upt_Suc)
  have g': "simulationStopped st' \<longrightarrow> new \<noteq> [] \<and> speed < 100 \<and> stop (length new) = StopClick
           \<and> atInterval (length new) sims 100
           \<and> progress st' = doublePercent (length new) sims"
  proof
    assume s: "simulationStopped st'"
    with g have ne: "new \<noteq> []" by simp
    then have "length new - 1 < length new" by (cases new) simp_all
    from nth [OF this] ne have "?todo ! (length new - 1) = length new"
      by (cases new) (simp_all del: upt_Suc)
    with g s show "new \<noteq> [] \<and> speed < 100 \<and> stop (length new) = StopClick
           \<and> atInterval (length new) sims 100
           \<and> progress st' = doublePercent (length new) sims"
      by (auto simp: delay_def max_def simp del: upt_Suc split: if_splits)
  qed
  have i: "new = [] \<longrightarrow> stayStats st' = \<lparr>wins = 0, losses = 0\<rparr>
                      \<and> switchStats st' = \<lparr>wins = 0, losses = 0\<rparr> \<and> \<not> simulationStopped st'"
    using c by (simp add: st0_def startSimulation_def)
  have j: "new \<noteq> [] \<longrightarrow> st' = last new" using c by simp
  have k: "length new \<le> sims" "length new < sims \<longrightarrow> simulationStopped st'"
    using b h len by (simp_all del: upt_Suc)
  have l: "seen = new" using a by simp
  from l k(1) final i j d e' f g' k(2) show ?thesis by blast
qed

lemma trialBoardLoop_done:
  "\<not> prizesPlaced < P \<Longrightarrow> trialBoardLoop n P cd prizesPlaced t = Some (cd, t)"
  by (cases t) simp_all

text \<open>The example runs.\<close>

lemma example_full_run:
  "runSimulation 3 1 2 0 neverStop initialAuto exampleTape =
     Some (exampleCompleted, [exampleAfterTrial1, exampleAfterTrial2], [])"
  by code_simp


lemma example_one_trial: "runTrials 3 1 1 0 0 exampleTape = Some (0, 1, [1, 1])"
  by code_simp

lemma example_auto_states:
  "stayStats exampleAfterTrial1 = \<lparr>wins = 0, losses = 1\<rparr>"
  "switchStats exampleAfterTrial1 = \<lparr>wins = 1, losses = 0\<rparr>"
  "stayStats exampleAfterTrial2 = \<lparr>wins = 1, losses = 1\<rparr>"
  "switchStats exampleAfterTrial2 = \<lparr>wins = 1, losses = 1\<rparr>"
  "stayStats exampleCompleted = \<lparr>wins = 1, losses = 1\<rparr>"
  "switchStats exampleCompleted = \<lparr>wins = 1, losses = 1\<rparr>"
  "stayStats exampleCancelled = \<lparr>wins = 0, losses = 1\<rparr>"
  "switchStats exampleCancelled = \<lparr>wins = 1, losses = 0\<rparr>"
  "simulationStopped exampleCancelled" "progress exampleCancelled = 100"
  "progress exampleStopClicked = 50"
  by (simp_all add: exampleAfterTrial1_def exampleAfterTrial2_def exampleCompleted_def
      exampleStopClicked_def exampleCancelled_def)

lemma example_cancelled_final:
  "exampleCancelled = exampleStopClicked\<lparr>progress := 100, isSimulating := False\<rparr>"
  by (simp add: exampleAfterTrial1_def exampleStopClicked_def exampleCancelled_def)

lemma example_two_prize_board:
  "trialBoard 4 2 (0 # 1 # tape) = Some ([True, True, False, False], tape)"
  apply code_simp
  apply (simp add: trialBoardLoop_done)
  done

lemma example_prize_pick_run:
  "runSimulation 4 2 1 100 neverStop initialAuto [0, 1, 0] =
     Some (examplePrizePickSeen\<lparr>isSimulating := False\<rparr>, [examplePrizePickSeen], [])"
  by code_simp

text \<open>
  The manual game on the same board: the player picks prize door 0, the host opens
  door 2, the player switches to door 1 and the switch is counted as a win.
\<close>

lemma example_two_prize_reset:
  "resetManualGame 4 2 exampleTwoPrizes [0, 1] = Some (Inr (exampleTwoPrizes, []))"
  by code_simp

lemma example_two_prize_game:
  "manualRun 4 2 exampleTwoPrizes [Click 0, HostTimer 0, Click 1] =
     Some (Inr \<lparr>doors = [closedDoor\<lparr>hasPrize := True, isOpen := True\<rparr>,
                         closedDoor\<lparr>hasPrize := True, isOpen := True, isSelected := True\<rparr>,
                         closedDoor\<lparr>isOpen := True\<rparr>, closedDoor\<lparr>isOpen := True\<rparr>],
                 gameState = Finished, message = SwitchedAndWon,
                 manualStats = \<lparr>stayWins = 0, switchWins = 1, total = 1\<rparr>\<rparr>)"
  by code_simp

text \<open>
  In a trial whose pick is a prize door the loop body never reaches the host and switch
  step: the switch counter stays as it was, whatever the configuration.
\<close>

lemma prize_pick_never_scores_switch:
  assumes "runTrial n P localStayWins localSwitchWins tape = Some (cd, pc, stayWon, switchWon, rest)"
    and "truthyAt cd pc"
  shows "switchWon = localSwitchWins" and "stayWon = localStayWins + 1"
  using assms
  by (auto simp: runTrial_def Let_def split: option.splits list.splits if_splits)

text \<open>
  Claim C1, on the code. With four doors and two prizes (a valid configuration with
  \<open>P = n - 2\<close> and \<open>P > 1\<close>), a trial that places the prizes behind doors 0 and 1 and
  picks door 0 ends right after the pick: it takes no draw for the host or the switch
  (the tape \<open>rest\<close> comes back whole), leaves the switch counter unchanged, and the run
  publishes the switch outcome as a loss. The claim says that the host and switch step
  is simulated and scored by the prize of the switch choice, which here can be door 1.
\<close>

theorem prize_pick_trial_skips_switch_step:
  "runTrial 4 2 localStayWins localSwitchWins (0 # 1 # 0 # rest) =
     Some ([True, True, False, False], 0, localStayWins + 1, localSwitchWins, rest)
   \<and> runSimulation 4 2 1 100 neverStop initialAuto [0, 1, 0] =
     Some (examplePrizePickSeen\<lparr>isSimulating := False\<rparr>, [examplePrizePickSeen], [])
   \<and> switchStats examplePrizePickSeen = \<lparr>wins = 0, losses = 1\<rparr>"
  unfolding example_prize_pick_run runTrial_def example_two_prize_board
  by (simp add: randomIndex_def truthyAt_def examplePrizePickSeen_def)

lemma stats_sum:
  "s = \<lparr>wins = wins s, losses = k - wins s\<rparr> \<Longrightarrow> wins s + losses s = k"
proof -
  assume "s = \<lparr>wins = wins s, losses = k - wins s\<rparr>"
  then have "losses s = losses \<lparr>wins = wins s, losses = k - wins s\<rparr>" by simp
  then show ?thesis by simp
qed

text \<open>
  Claim C7. In every run of \<open>runSimulation\<close>, the state seen after the \<open>k\<close>-th completed
  trial has \<open>stayStats.wins + stayStats.losses = switchStats.wins + switchStats.losses = k\<close>
  (the list \<open>seen\<close> holds these states in order, so its entry \<open>k\<close> is the state after
  trial \<open>k + 1\<close>), and the final state has both sums equal to the number of completed
  trials. In general, whatever the loop body publishes for trial number \<open>i\<close> has both
  sums equal to \<open>i\<close>, also in a run that never ends.
\<close>

theorem batch_stats_count_completed_trials:
  assumes "runSimulation n P sims speed stop st tape = Some (final, seen, rest)"
  shows "length seen \<le> sims
     \<and> (\<forall>k<length seen.
           wins (stayStats (seen ! k)) + losses (stayStats (seen ! k)) = int (k + 1)
         \<and> wins (switchStats (seen ! k)) + losses (switchStats (seen ! k)) = int (k + 1))
     \<and> wins (stayStats final) + losses (stayStats final) = int (length seen)
     \<and> wins (switchStats final) + losses (switchStats final) = int (length seen)
     \<and> wins (stayStats (publishTrial sims delay stopClicked i cd pc a b s))
         + losses (stayStats (publishTrial sims delay stopClicked i cd pc a b s)) = int i
     \<and> wins (switchStats (publishTrial sims delay stopClicked i cd pc a b s))
         + losses (switchStats (publishTrial sims delay stopClicked i cd pc a b s)) = int i"
proof -
  have published:
    "wins (stayStats (publishTrial sims delay stopClicked i cd pc a b s))
         + losses (stayStats (publishTrial sims delay stopClicked i cd pc a b s)) = int i"
    "wins (switchStats (publishTrial sims delay stopClicked i cd pc a b s))
         + losses (switchStats (publishTrial sims delay stopClicked i cd pc a b s)) = int i"
    by (simp_all add: publishTrial_stats)
  from runSimulation_loop [OF assms] obtain st' where
    len: "length seen \<le> sims"
    and final: "final = st'\<lparr>progress := 100, isSimulating := False\<rparr>"
    and empty: "seen = [] \<longrightarrow> stayStats st' = \<lparr>wins = 0, losses = 0\<rparr>
                      \<and> switchStats st' = \<lparr>wins = 0, losses = 0\<rparr>"
    and last: "seen \<noteq> [] \<longrightarrow> st' = last seen"
    and each: "\<forall>j<length seen.
           stayStats (seen ! j) = \<lparr>wins = wins (stayStats (seen ! j)),
                                    losses = int (j + 1) - wins (stayStats (seen ! j))\<rparr>
         \<and> switchStats (seen ! j) = \<lparr>wins = wins (switchStats (seen ! j)),
                                    losses = int (j + 1) - wins (switchStats (seen ! j))\<rparr>"
    by blast
  have sums: "\<forall>k<length seen.
           wins (stayStats (seen ! k)) + losses (stayStats (seen ! k)) = int (k + 1)
         \<and> wins (switchStats (seen ! k)) + losses (switchStats (seen ! k)) = int (k + 1)"
    using each stats_sum by blast
  have fin: "wins (stayStats st') + losses (stayStats st') = int (length seen)
     \<and> wins (switchStats st') + losses (switchStats st') = int (length seen)"
  proof (cases "seen = []")
    case True
    with empty show ?thesis by simp
  next
    case False
    then have "length seen - 1 < length seen" by (cases seen) simp_all
    moreover from False last have "st' = seen ! (length seen - 1)"
      by (simp add: last_conv_nth)
    moreover from False have "length seen - 1 + 1 = length seen" by (cases seen) simp_all
    ultimately show ?thesis using sums by metis
  qed
  from len sums fin final published show ?thesis by simp
qed

theorem batch_stats_count_completed_trials_witness:
  "runSimulation 3 1 2 0 neverStop initialAuto exampleTape =
     Some (exampleCompleted, [exampleAfterTrial1, exampleAfterTrial2], [])
   \<and> wins (stayStats exampleAfterTrial1) + losses (stayStats exampleAfterTrial1) = 1
   \<and> wins (switchStats exampleAfterTrial1) + losses (switchStats exampleAfterTrial1) = 1
   \<and> wins (stayStats exampleAfterTrial2) + losses (stayStats exampleAfterTrial2) = 2
   \<and> wins (switchStats exampleAfterTrial2) + losses (switchStats exampleAfterTrial2) = 2
   \<and> wins (stayStats exampleCompleted) + losses (stayStats exampleCompleted) = 2
   \<and> wins (switchStats exampleCompleted) + losses (switchStats exampleCompleted) = 2"
  using batch_stats_count_completed_trials [OF example_full_run] example_full_run
  by (simp add: example_auto_states)





lemma example_restarted_run:
  "runSimulation 3 1 2 0 (restartAfter 1) initialAuto exampleTape = None"
  by code_simp

text \<open>
  The progress is a double: after two of three trials it is not the fraction
  \<open>2 / 3\<close> as a percentage, but the double \<^verbatim>\<open>66.66666666666666\<close>.
\<close>

lemma example_double_progress:
  "doublePercent 1 2 = 50"
  "doublePercent 2 3 = 4691249611844266 / 2 ^ 46"
  "doublePercent 2 3 \<noteq> (real 2 / real 3) * 100"
  by code_simp+








end
